theory Spec2Isabelle
  imports Main "HOL-Library.Word" "HOL-Library.Signed_Division"
begin

section \<open>Go integers\<close>

text \<open>
  Go's \<^verbatim>\<open>int\<close> is a two's-complement integer whose width is the platform's
  (\<^verbatim>\<open>strconv.IntSize\<close>, 32 or 64). It is modelled as \<open>'a word\<close>, with
  \<open>LENGTH('a)\<close> standing for \<^verbatim>\<open>strconv.IntSize\<close>; \<open>+\<close>, \<open>-\<close> and \<open>*\<close> wrap around as
  Go's do. \<^verbatim>\<open>int64\<close> and \<^verbatim>\<open>time.Duration\<close> are \<open>64 word\<close>.

  Go's \<^verbatim>\<open>/\<close> and \<^verbatim>\<open>%\<close> truncate towards zero: the quotient and remainder of the
  signed values, wrapped back into the word (only \<^verbatim>\<open>MinInt / -1\<close> wraps). The
  divisors of this program are non-zero constants, so the run-time panic of a
  division by zero is not a branch of the model.
\<close>

definition go_quo :: "'a::len word \<Rightarrow> 'a word \<Rightarrow> 'a word" where
  "go_quo a b = word_of_int (sint a sdiv sint b)"

definition go_rem :: "'a::len word \<Rightarrow> 'a word \<Rightarrow> 'a word" where
  "go_rem a b = word_of_int (sint a smod sint b)"

text \<open>The least value of an \<^verbatim>\<open>int\<close>: its negation wraps around to itself.\<close>

definition MinInt :: "'a::len word" where
  "MinInt = word_of_int (- (2 ^ (LENGTH('a) - 1)))"

section \<open>The Period value\<close>

text \<open>
  \<^verbatim>\<open>type Period struct { Years, Months, Weeks, Days, Hours, Minutes, Seconds int }\<close>.
  The record is parametric in the type of its fields, which is always a Go
  \<^verbatim>\<open>int\<close>, that is \<open>'a word\<close>.
\<close>

record 'i Period =
  Years :: 'i
  Months :: 'i
  Weeks :: 'i
  Days :: 'i
  Hours :: 'i
  Minutes :: 'i
  Seconds :: 'i

text \<open>The zero value \<^verbatim>\<open>Period{}\<close>.\<close>

definition zero_Period :: "'a::len word Period" where
  "zero_Period = \<lparr>Years = 0, Months = 0, Weeks = 0, Days = 0, Hours = 0, Minutes = 0, Seconds = 0\<rparr>"

text \<open>Field-wise negation of a Period, with Go's unary minus on each field.\<close>

definition negate :: "'a::len word Period \<Rightarrow> 'a word Period" where
  "negate p = \<lparr>Years = - Years p, Months = - Months p, Weeks = - Weeks p, Days = - Days p,
     Hours = - Hours p, Minutes = - Minutes p, Seconds = - Seconds p\<rparr>"

text \<open>
  The absolute values of a Period's fields, for the statement that a Period of
  non-positive fields normalizes to the negation of the normalization of its
  absolute values. This is not a function of the package: it is the usual Go
  idiom \<^verbatim>\<open>if x < 0 { x = -x }\<close> on each field, so the absolute value of the least
  int is the least int.
\<close>

definition absolute :: "'a::len word Period \<Rightarrow> 'a word Period" where
  "absolute p = \<lparr>Years = (if Years p <s 0 then - Years p else Years p),
     Months = (if Months p <s 0 then - Months p else Months p),
     Weeks = (if Weeks p <s 0 then - Weeks p else Weeks p),
     Days = (if Days p <s 0 then - Days p else Days p),
     Hours = (if Hours p <s 0 then - Hours p else Hours p),
     Minutes = (if Minutes p <s 0 then - Minutes p else Minutes p),
     Seconds = (if Seconds p <s 0 then - Seconds p else Seconds p)\<rparr>"

subsection \<open>HasDatePart, HasTimePart\<close>

definition HasDatePart :: "'a::len word Period \<Rightarrow> bool" where
  "HasDatePart period \<longleftrightarrow>
     Years period \<noteq> 0 \<or> Months period \<noteq> 0 \<or> Weeks period \<noteq> 0 \<or> Days period \<noteq> 0"

definition HasTimePart :: "'a::len word Period \<Rightarrow> bool" where
  "HasTimePart period \<longleftrightarrow>
     Hours period \<noteq> 0 \<or> Minutes period \<noteq> 0 \<or> Seconds period \<noteq> 0"

subsection \<open>Normalize\<close>

text \<open>
  The body of \<^verbatim>\<open>Normalize\<close>, statement by statement. The tuple assignments of the
  source evaluate their right-hand sides with the old values, so the raw sums are
  named \<open>minutes0\<close> and \<open>hours0\<close> here.
\<close>

definition Normalize :: "'a::len word Period \<Rightarrow> 'a word Period" where
  "Normalize period =
    (let seconds = go_rem (Seconds period) 60;
         minutes0 = go_quo (Seconds period) 60 + Minutes period;
         minutes = go_rem minutes0 60;
         hours0 = go_quo minutes0 60 + Hours period;
         hours = go_rem hours0 24;
         days = go_quo hours0 24 + Days period + Weeks period * 7;
         months = go_rem (Months period) 12;
         years = go_quo (Months period) 12 + Years period
     in \<lparr>Years = years, Months = months, Weeks = 0, Days = days, Hours = hours,
          Minutes = minutes, Seconds = seconds\<rparr>)"

subsection \<open>Errors, durations and FromDuration\<close>

text \<open>
  The two error values of the package, and the two kinds of error that
  \<^verbatim>\<open>strconv.Atoi\<close> returns (a \<^verbatim>\<open>*strconv.NumError\<close> wrapping \<^verbatim>\<open>strconv.ErrSyntax\<close> or
  \<^verbatim>\<open>strconv.ErrRange\<close>), which \<^verbatim>\<open>FromString\<close> passes on unchanged.
\<close>

datatype error = errPeriodOverflow | errPeriodBadFormat | ErrSyntax | ErrRange

text \<open>\<^verbatim>\<open>time.Duration\<close> is an \<^verbatim>\<open>int64\<close> count of nanoseconds.\<close>

definition Second :: "64 word" where "Second = 1000000000"

definition Minute :: "64 word" where "Minute = 60 * Second"

definition Hour :: "64 word" where "Hour = 60 * Minute"

text \<open>
  \<^verbatim>\<open>FromDuration\<close>. \<^verbatim>\<open>maxSeconds\<close> is the constant \<^verbatim>\<open>1<<(strconv.IntSize-1) - 1\<close>
  converted to a Duration; \<^verbatim>\<open>int(seconds)\<close> is Go's conversion from \<^verbatim>\<open>int64\<close> to
  \<^verbatim>\<open>int\<close>, which keeps the low bits (\<open>scast\<close>). The result is \<open>Inl\<close> of the error or
  \<open>Inr\<close> of the Period.
\<close>

definition FromDuration :: "64 word \<Rightarrow> error + 'a::len word Period" where
  "FromDuration duration =
     (let seconds = go_quo duration Second;
          maxSeconds = (word_of_int (2 ^ (LENGTH('a) - 1) - 1) :: 64 word)
      in if maxSeconds <s seconds then Inl errPeriodOverflow
         else Inr (Normalize (zero_Period\<lparr>Seconds := scast seconds\<rparr>)))"

subsection \<open>The borrow/carry pass of Between\<close>



section \<open>The textual format\<close>

subsection \<open>Decimal numbers: printing and strconv.Atoi\<close>

text \<open>
  The digits are the ASCII digits, which is what \<^verbatim>\<open>\d\<close> matches in Go's regular
  expressions and what \<^verbatim>\<open>strconv\<close> accepts in base 10.
\<close>

definition is_digit :: "char \<Rightarrow> bool" where
  "is_digit c \<longleftrightarrow> c \<in> set ''0123456789''"

definition digit_val :: "char \<Rightarrow> nat" where
  "digit_val c = of_char c - 48"

definition digit_char :: "nat \<Rightarrow> char" where
  "digit_char d = ''0123456789'' ! d"

text \<open>
  The decimal digits of a natural number, without leading zeros, and the decimal
  text of an integer as the template engine prints an \<^verbatim>\<open>int\<close> (a minus sign before
  the digits of a negative one).
\<close>

fun digits_of :: "nat \<Rightarrow> string" where
  "digits_of n = (if n < 10 then [digit_char n] else digits_of (n div 10) @ [digit_char (n mod 10)])"

declare digits_of.simps [simp del]

definition FormatInt :: "int \<Rightarrow> string" where
  "FormatInt v = (if v < 0 then CHR ''-'' # digits_of (nat (- v)) else digits_of (nat v))"

definition nat_of_digits :: "string \<Rightarrow> nat" where
  "nat_of_digits ds = foldl (\<lambda>n ch. n * 10 + digit_val ch) 0 ds"

text \<open>A number of the grammar: one or more digits.\<close>

definition number :: "string \<Rightarrow> bool" where
  "number n \<longleftrightarrow> n \<noteq> [] \<and> list_all is_digit n"

text \<open>
  \<^verbatim>\<open>strconv.Atoi\<close>: an optional sign, then one or more digits; a syntax error
  otherwise, and a range error when the value does not fit an \<^verbatim>\<open>int\<close>. The
  \<^verbatim>\<open>*strconv.NumError\<close> that Go returns is modelled by the kind of error it wraps.
\<close>

definition Atoi :: "string \<Rightarrow> error + 'a::len word" where
  "Atoi s =
     (let neg = (s \<noteq> [] \<and> hd s = CHR ''-'');
          ds = (if s \<noteq> [] \<and> (hd s = CHR ''-'' \<or> hd s = CHR ''+'') then tl s else s)
      in if \<not> number ds then Inl ErrSyntax
         else let v = (if neg then - int (nat_of_digits ds) else int (nat_of_digits ds))
           in if v < - (2 ^ (LENGTH('a) - 1)) \<or> 2 ^ (LENGTH('a) - 1) - 1 < v then Inl ErrRange
              else Inr (word_of_int v))"

subsection \<open>The regular expressions\<close>

text \<open>
  The fragment of Go's regular expressions that the two patterns of the package
  use: a literal character, \<^verbatim>\<open>\d+\<close>, concatenation, \<^verbatim>\<open>?\<close>, and a capturing group
  with its name (the empty name for an unnamed group). Both patterns are anchored
  by \<^verbatim>\<open>^\<close> and \<^verbatim>\<open>$\<close>, so a match is a match of the whole text.
\<close>

datatype regexp = Lit char | Digits | Cat regexp regexp | Opt regexp | Group string regexp

text \<open>
  The submatches of a match: the text captured by each group that took part in
  the match, under the group's name. A group that took no part has no entry; Go
  reports the empty string for it.
\<close>

type_synonym submatches = "(string \<times> string) list"

text \<open>
  The ways \<^verbatim>\<open>\d+\<close> can match at the start of a text, longest first (the operator is
  greedy): the digits taken and the rest.
\<close>

fun digit_prefixes :: "string \<Rightarrow> (string \<times> string) list" where
  "digit_prefixes [] = []"
| "digit_prefixes (c # s) =
     (if is_digit c then map (\<lambda>(ds, r). (c # ds, r)) (digit_prefixes s) @ [([c], s)] else [])"

fun first_some :: "('a \<Rightarrow> 'b option) \<Rightarrow> 'a list \<Rightarrow> 'b option" where
  "first_some f [] = None"
| "first_some f (x # xs) = (case f x of Some y \<Rightarrow> Some y | None \<Rightarrow> first_some f xs)"

text \<open>
  Matching with Go's leftmost-first preference: \<open>backtrack re s m k\<close> matches \<open>re\<close>
  at the start of \<open>s\<close> with the submatches \<open>m\<close> collected so far and hands the rest
  of the text to the continuation \<open>k\<close>; an optional part is tried before it is
  skipped, and a longer run of digits before a shorter one.
\<close>

fun backtrack :: "regexp \<Rightarrow> string \<Rightarrow> submatches \<Rightarrow> (string \<Rightarrow> submatches \<Rightarrow> submatches option)
    \<Rightarrow> submatches option" where
  "backtrack (Lit c) s m k = (case s of [] \<Rightarrow> None | x # xs \<Rightarrow> if x = c then k xs m else None)"
| "backtrack Digits s m k = first_some (\<lambda>(ds, r). k r m) (digit_prefixes s)"
| "backtrack (Cat a b) s m k = backtrack a s m (\<lambda>s' m'. backtrack b s' m' k)"
| "backtrack (Opt a) s m k = (case backtrack a s m k of Some r \<Rightarrow> Some r | None \<Rightarrow> k s m)"
| "backtrack (Group name a) s m k =
     backtrack a s m (\<lambda>s' m'. k s' ((name, take (length s - length s') s) # m'))"

text \<open>
  \<^verbatim>\<open>FindStringSubmatch\<close> of an anchored pattern: \<open>None\<close> is Go's \<^verbatim>\<open>nil\<close>, no match.
\<close>

definition FindStringSubmatch :: "regexp \<Rightarrow> string \<Rightarrow> submatches option" where
  "FindStringSubmatch re s = backtrack re s [] (\<lambda>s' m. if s' = [] then Some m else None)"

text \<open>
  \<^verbatim>\<open>SubexpNames\<close>: the names of the groups in the order of their opening
  parentheses, after the empty name of the whole match at index 0.
\<close>

fun SubexpNames_of :: "regexp \<Rightarrow> string list" where
  "SubexpNames_of (Lit c) = []"
| "SubexpNames_of Digits = []"
| "SubexpNames_of (Cat a b) = SubexpNames_of a @ SubexpNames_of b"
| "SubexpNames_of (Opt a) = SubexpNames_of a"
| "SubexpNames_of (Group name a) = name # SubexpNames_of a"

definition SubexpNames :: "regexp \<Rightarrow> string list" where
  "SubexpNames re = [] # SubexpNames_of re"

text \<open>
  The two patterns. \<open>component name unit\<close> is \<^verbatim>\<open>((?P<name>\d+)unit)?\<close>;
  \<open>regexpPeriod\<close> is
  \<^verbatim>\<open>^P((?P<year>\d+)Y)?((?P<month>\d+)M)?((?P<day>\d+)D)?(T((?P<hour>\d+)H)?((?P<minute>\d+)M)?((?P<second>\d+)S)?)?$\<close>
  and \<open>regexpWeek\<close> is \<^verbatim>\<open>^P((?P<week>\d+)W)$\<close>.
\<close>

definition component :: "string \<Rightarrow> char \<Rightarrow> regexp" where
  "component name unit = Opt (Group [] (Cat (Group name Digits) (Lit unit)))"

definition regexpPeriod :: regexp where
  "regexpPeriod =
     Cat (Lit CHR ''P'') (Cat (component ''year'' CHR ''Y'') (Cat (component ''month'' CHR ''M'')
       (Cat (component ''day'' CHR ''D'')
         (Opt (Group [] (Cat (Lit CHR ''T'') (Cat (component ''hour'' CHR ''H'')
           (Cat (component ''minute'' CHR ''M'') (component ''second'' CHR ''S'')))))))))"

definition regexpWeek :: regexp where
  "regexpWeek = Cat (Lit CHR ''P'') (Group [] (Cat (Group ''week'' Digits) (Lit CHR ''W'')))"

subsection \<open>FromString\<close>

text \<open>The \<^verbatim>\<open>switch name\<close> of \<^verbatim>\<open>FromString\<close>.\<close>

definition assign :: "string \<Rightarrow> 'a::len word \<Rightarrow> 'a word Period \<Rightarrow> 'a word Period" where
  "assign name val period =
     (if name = ''year'' then period\<lparr>Years := val\<rparr>
      else if name = ''month'' then period\<lparr>Months := val\<rparr>
      else if name = ''week'' then period\<lparr>Weeks := val\<rparr>
      else if name = ''day'' then period\<lparr>Days := val\<rparr>
      else if name = ''hour'' then period\<lparr>Hours := val\<rparr>
      else if name = ''minute'' then period\<lparr>Minutes := val\<rparr>
      else if name = ''second'' then period\<lparr>Seconds := val\<rparr>
      else period)"

text \<open>
  The loop \<^verbatim>\<open>for i, name := range re.SubexpNames()\<close>. The part \<^verbatim>\<open>match[i]\<close> of a
  named group is looked up by its name, which is unique in each pattern, and is
  empty for a group that took no part in the match. Index 0 and the unnamed
  groups have the empty name and are skipped, as are empty parts; the first
  error of \<^verbatim>\<open>strconv.Atoi\<close> is returned as it is (\<^verbatim>\<open>return nil, err\<close>).
\<close>

fun fill :: "submatches \<Rightarrow> string list \<Rightarrow> 'a::len word Period \<Rightarrow> error + 'a word Period" where
  "fill match [] period = Inr period"
| "fill match (name # names) period =
     (let part = (case map_of match name of None \<Rightarrow> [] | Some text \<Rightarrow> text)
      in if name = [] \<or> part = [] then fill match names period
         else case Atoi part of
                Inl err \<Rightarrow> Inl err
              | Inr val \<Rightarrow> fill match names (assign name val period))"

text \<open>
  \<^verbatim>\<open>FromString\<close>: the week pattern is tried first, then the period pattern; the
  Period starts as the zero value.
\<close>

definition FromString :: "string \<Rightarrow> error + 'a::len word Period" where
  "FromString str =
     (case FindStringSubmatch regexpWeek str of
        Some match \<Rightarrow> fill match (SubexpNames regexpWeek) zero_Period
      | None \<Rightarrow>
          (case FindStringSubmatch regexpPeriod str of
             Some match \<Rightarrow> fill match (SubexpNames regexpPeriod) zero_Period
           | None \<Rightarrow> Inl errPeriodBadFormat))"

subsection \<open>String\<close>

text \<open>
  The template of \<^verbatim>\<open>String\<close>, action by action: \<^verbatim>\<open>{{if .Years}}{{.Years}}Y{{end}}\<close>
  prints the field and its letter when the field is not zero, and
  \<^verbatim>\<open>{{if .HasTimePart}}T{{end}}\<close> prints the separator.
\<close>

definition String :: "'a::len word Period \<Rightarrow> string" where
  "String period =
     ''P''
     @ (if Years period \<noteq> 0 then FormatInt (sint (Years period)) @ ''Y'' else [])
     @ (if Months period \<noteq> 0 then FormatInt (sint (Months period)) @ ''M'' else [])
     @ (if Weeks period \<noteq> 0 then FormatInt (sint (Weeks period)) @ ''W'' else [])
     @ (if Days period \<noteq> 0 then FormatInt (sint (Days period)) @ ''D'' else [])
     @ (if HasTimePart period then ''T'' else [])
     @ (if Hours period \<noteq> 0 then FormatInt (sint (Hours period)) @ ''H'' else [])
     @ (if Minutes period \<noteq> 0 then FormatInt (sint (Minutes period)) @ ''M'' else [])
     @ (if Seconds period \<noteq> 0 then FormatInt (sint (Seconds period)) @ ''S'' else [])"

subsection \<open>The grammars of the specification\<close>

text \<open>
  The two grammars as the specification words them, to compare with the
  patterns: \<^verbatim>\<open>P[nY][nM][nD][T[nH][nM][nS]]\<close> and \<^verbatim>\<open>PnW\<close>, where each \<^verbatim>\<open>n\<close> is a
  number. An optional block is given by its number, or \<open>None\<close>; the optional time
  part by its three optional numbers, or \<open>None\<close>.
\<close>

fun optional_number :: "string option \<Rightarrow> bool" where
  "optional_number None = True"
| "optional_number (Some n) = number n"

fun block :: "string option \<Rightarrow> char \<Rightarrow> string" where
  "block None unit = []"
| "block (Some n) unit = n @ [unit]"

fun time_text :: "(string option \<times> string option \<times> string option) option \<Rightarrow> string" where
  "time_text None = []"
| "time_text (Some (h, mi, s)) =
     CHR ''T'' # block h CHR ''H'' @ block mi CHR ''M'' @ block s CHR ''S''"

fun optional_time :: "(string option \<times> string option \<times> string option) option \<Rightarrow> bool" where
  "optional_time None = True"
| "optional_time (Some (h, mi, s)) \<longleftrightarrow> optional_number h \<and> optional_number mi \<and> optional_number s"

definition period_text ::
  "string option \<Rightarrow> string option \<Rightarrow> string option
     \<Rightarrow> (string option \<times> string option \<times> string option) option \<Rightarrow> string" where
  "period_text y mo d tm =
     CHR ''P'' # block y CHR ''Y'' @ block mo CHR ''M'' @ block d CHR ''D'' @ time_text tm"

definition period_grammar :: "string \<Rightarrow> bool" where
  "period_grammar str \<longleftrightarrow>
     (\<exists>y mo d tm. optional_number y \<and> optional_number mo \<and> optional_number d \<and>
        optional_time tm \<and> str = period_text y mo d tm)"

definition week_text :: "string \<Rightarrow> string" where
  "week_text n = CHR ''P'' # n @ ''W''"

definition week_grammar :: "string \<Rightarrow> bool" where
  "week_grammar str \<longleftrightarrow> (\<exists>n. number n \<and> str = week_text n)"

text \<open>
  The value of an optional number, whether it fits an \<^verbatim>\<open>int\<close> of \<open>w\<close> bits, and
  the three optional numbers of an optional time part.
\<close>

definition fits :: "nat \<Rightarrow> string option \<Rightarrow> bool" where
  "fits w v = (case v of None \<Rightarrow> True | Some n \<Rightarrow> int (nat_of_digits n) \<le> 2 ^ (w - 1) - 1)"

definition val :: "string option \<Rightarrow> 'a::len word" where
  "val v = (case v of None \<Rightarrow> 0 | Some n \<Rightarrow> word_of_int (int (nat_of_digits n)))"

fun hms :: "(string option \<times> string option \<times> string option) option
    \<Rightarrow> string option \<times> string option \<times> string option" where
  "hms None = (None, None, None)"
| "hms (Some t) = t"

subsection \<open>Auxiliary notions of the proofs about matching\<close>

text \<open>
  The letter that follows the run of digits at the start of a text, if the run is
  not empty and a letter follows.
\<close>

definition lead :: "string \<Rightarrow> char option" where
  "lead s = (if takeWhile is_digit s = [] then None
             else case dropWhile is_digit s of [] \<Rightarrow> None | x # xs \<Rightarrow> Some x)"

text \<open>The submatches that a text of the period grammar produces, latest first.\<close>

fun sub :: "string \<Rightarrow> char \<Rightarrow> string option \<Rightarrow> submatches" where
  "sub name u None = []"
| "sub name u (Some n) = [([], n @ [u]), (name, n)]"

fun time_sub :: "(string option \<times> string option \<times> string option) option \<Rightarrow> submatches" where
  "time_sub None = []"
| "time_sub (Some (h, mi, s)) =
     ([], time_text (Some (h, mi, s))) # sub ''second'' CHR ''S'' s @ sub ''minute'' CHR ''M'' mi
       @ sub ''hour'' CHR ''H'' h"

definition period_sub ::
  "string option \<Rightarrow> string option \<Rightarrow> string option
     \<Rightarrow> (string option \<times> string option \<times> string option) option \<Rightarrow> submatches" where
  "period_sub y mo d tm =
     time_sub tm @ sub ''day'' CHR ''D'' d @ sub ''month'' CHR ''M'' mo @ sub ''year'' CHR ''Y'' y"

text \<open>The final continuation of a match, and the time part of \<open>regexpPeriod\<close>.\<close>

definition at_end :: "string \<Rightarrow> submatches \<Rightarrow> submatches option" where
  "at_end s' m = (if s' = [] then Some m else None)"

definition timeRe :: regexp where
  "timeRe = Cat (Lit CHR ''T'') (Cat (component ''hour'' CHR ''H'')
           (Cat (component ''minute'' CHR ''M'') (component ''second'' CHR ''S'')))"

text \<open>The assignment of an optional number, and the text that a field prints as.\<close>

definition put :: "string \<Rightarrow> string option \<Rightarrow> 'a::len word Period \<Rightarrow> 'a word Period" where
  "put name v p = (case v of None \<Rightarrow> p | Some n \<Rightarrow> assign name (val v) p)"

definition text_of :: "'a::len word \<Rightarrow> string option" where
  "text_of x = (if x = 0 then None else Some (digits_of (nat (sint x))))"

section \<open>Facts about Go's integer division\<close>

lemma sdiv_pos_divisor:
  fixes k c :: int
  assumes "0 < c"
  shows "k sdiv c = (if 0 \<le> k then k div c else - ((- k) div c))"
  using assms by (auto simp: signed_divide_int_def sgn_if)

lemma smod_pos_divisor:
  fixes k c :: int
  assumes "0 < c"
  shows "k smod c = (if 0 \<le> k then k mod c else - ((- k) mod c))"
  using assms by (auto simp: signed_modulo_int_def sgn_if)

lemma sdiv_minus_left: "(- k) sdiv c = - (k sdiv c)" for k c :: int
  by (simp add: signed_divide_int_def)

lemma smod_minus_left: "(- k) smod c = - (k smod c)" for k c :: int
  by (simp add: signed_modulo_int_def)

lemma smod_bounds:
  fixes k c :: int
  assumes "0 < c"
  shows "- c < k smod c" and "k smod c < c"
proof -
  have a: "0 \<le> k mod c" "k mod c < c" "0 \<le> (- k) mod c" "(- k) mod c < c"
    using assms by simp_all
  have "k smod c = k mod c \<or> k smod c = - ((- k) mod c)"
    by (simp add: smod_pos_divisor [OF assms])
  with a assms show "- c < k smod c" and "k smod c < c"
    by linarith+
qed

lemma sdiv_small: "0 < c \<Longrightarrow> - c < k \<Longrightarrow> k < c \<Longrightarrow> k sdiv c = 0" for k c :: int
  by (simp add: sdiv_pos_divisor)

lemma smod_small: "0 < c \<Longrightarrow> - c < k \<Longrightarrow> k < c \<Longrightarrow> k smod c = k" for k c :: int
  by (simp add: smod_pos_divisor)

lemma div_le_self_int: "0 \<le> k \<Longrightarrow> 0 < c \<Longrightarrow> k div c \<le> k" for k c :: int
  using zdiv_mono2 [of k 1 c] by simp

lemma sdiv_bounds:
  fixes k c :: int
  assumes "0 < c"
  shows "- \<bar>k\<bar> \<le> k sdiv c" and "k sdiv c \<le> \<bar>k\<bar>"
    and "0 \<le> k \<Longrightarrow> 0 \<le> k sdiv c" and "k \<le> 0 \<Longrightarrow> k sdiv c \<le> 0"
proof -
  have a: "0 \<le> k \<Longrightarrow> k div c \<le> k" "0 \<le> k \<Longrightarrow> 0 \<le> k div c"
    using assms by (simp_all add: div_le_self_int pos_imp_zdiv_nonneg_iff)
  have b: "k < 0 \<Longrightarrow> (- k) div c \<le> - k" "k < 0 \<Longrightarrow> 0 \<le> (- k) div c"
    using assms by (simp_all add: div_le_self_int pos_imp_zdiv_nonneg_iff)
  have "k sdiv c = k div c \<and> 0 \<le> k \<or> k sdiv c = - ((- k) div c) \<and> k < 0"
    by (auto simp add: sdiv_pos_divisor [OF assms])
  with a b show "- \<bar>k\<bar> \<le> k sdiv c" "k sdiv c \<le> \<bar>k\<bar>"
    "0 \<le> k \<Longrightarrow> 0 \<le> k sdiv c" "k \<le> 0 \<Longrightarrow> k sdiv c \<le> 0"
    by linarith+
qed

text \<open>Signed values of small constants and of in-range results.\<close>

lemma two_pow_31_le:
  "32 \<le> LENGTH('a::len) \<Longrightarrow> (2::int) ^ 31 \<le> 2 ^ (LENGTH('a) - 1)"
  by (rule power_increasing) auto

lemma sint_in_range:
  assumes "- (2 ^ (LENGTH('a::len) - 1)) \<le> k" "k < 2 ^ (LENGTH('a) - 1)"
  shows "sint (word_of_int k :: 'a word) = k"
  using assms by (simp add: sint_sbintrunc' signed_take_bit_int_eq_self)

lemma sint_small:
  assumes "32 \<le> LENGTH('a::len)" "- (2 ^ 31) \<le> k" "k < 2 ^ 31"
  shows "sint (word_of_int k :: 'a word) = k"
  using assms two_pow_31_le [OF assms(1)] by (intro sint_in_range) auto

lemma sint_consts:
  assumes "32 \<le> LENGTH('a::len)"
  shows "sint (60 :: 'a word) = 60" "sint (24 :: 'a word) = 24"
    "sint (12 :: 'a word) = 12" "sint (7 :: 'a word) = 7"
  using sint_small [OF assms, of 60] sint_small [OF assms, of 24]
    sint_small [OF assms, of 12] sint_small [OF assms, of 7]
  by simp_all

lemma sint_go_rem:
  assumes "32 \<le> LENGTH('a::len)" "sint (b :: 'a word) = c" "0 < c" "c < 2 ^ 31"
  shows "sint (go_rem x b) = sint x smod c"
proof -
  have "- (2 ^ 31) \<le> sint x smod c" "sint x smod c < 2 ^ 31"
    using smod_bounds [OF assms(3), of "sint x"] assms(4) by auto
  then show ?thesis
    unfolding go_rem_def assms(2) by (rule sint_small [OF assms(1)])
qed

lemma sint_go_quo:
  assumes "sint (b :: 'a::len word) = c" "0 < c"
  shows "sint (go_quo x b) = sint x sdiv c"
proof -
  have "- (2 ^ (LENGTH('a) - 1)) \<le> sint x" "sint x < 2 ^ (LENGTH('a) - 1)"
    by (rule sint_ge, rule sint_lt)
  then have "- (2 ^ (LENGTH('a) - 1)) \<le> sint x sdiv c" "sint x sdiv c < 2 ^ (LENGTH('a) - 1)"
    using sdiv_bounds [OF assms(2), of "sint x"] by (auto simp: abs_if split: if_splits)
  then show ?thesis
    unfolding go_quo_def assms(1) by (rule sint_in_range)
qed

lemma go_rem_idem:
  assumes "32 \<le> LENGTH('a::len)" "sint (b :: 'a word) = c" "0 < c" "c < 2 ^ 31"
  shows "go_rem (go_rem x b) b = go_rem x b"
proof (rule signed_word_eqI)
  show "sint (go_rem (go_rem x b) b) = sint (go_rem x b)"
    using smod_bounds [OF assms(3), of "sint x"]
    by (simp add: sint_go_rem [OF assms] smod_small [OF assms(3)])
qed

lemma go_quo_rem_zero:
  assumes "32 \<le> LENGTH('a::len)" "sint (b :: 'a word) = c" "0 < c" "c < 2 ^ 31"
  shows "go_quo (go_rem x b) b = 0"
proof (rule signed_word_eqI)
  show "sint (go_quo (go_rem x b) b) = sint (0 :: 'a word)"
    using smod_bounds [OF assms(3), of "sint x"]
    by (simp add: sint_go_quo [OF assms(2,3)] sint_go_rem [OF assms] sdiv_small [OF assms(3)])
qed

lemma sint_add_exact:
  fixes a b :: "'a::len word"
  assumes "- (2 ^ (LENGTH('a) - 1)) \<le> sint a + sint b" "sint a + sint b < 2 ^ (LENGTH('a) - 1)"
  shows "sint (a + b) = sint a + sint b"
  using assms by (simp add: sint_word_ariths signed_take_bit_int_eq_self)

lemma sint_mult_exact:
  fixes a b :: "'a::len word"
  assumes "- (2 ^ (LENGTH('a) - 1)) \<le> sint a * sint b" "sint a * sint b < 2 ^ (LENGTH('a) - 1)"
  shows "sint (a * b) = sint a * sint b"
  using assms by (simp add: sint_word_ariths signed_take_bit_int_eq_self)

lemma sint_minus_exact:
  fixes a :: "'a::len word"
  assumes "sint a \<noteq> - (2 ^ (LENGTH('a) - 1))"
  shows "sint (- a) = - sint a"
  using assms sint_ge[of a] sint_lt[of a] by (simp add: sint_word_ariths signed_take_bit_int_eq_self)

lemma sint_MinInt: "sint (MinInt :: 'a::len word) = - (2 ^ (LENGTH('a) - 1))"
  unfolding MinInt_def by (rule sint_in_range) simp_all

lemma not_MinInt: "x \<noteq> MinInt \<Longrightarrow> sint x \<noteq> - (2 ^ (LENGTH('a) - 1))" for x :: "'a::len word"
  using sint_MinInt [where 'a = 'a] by (metis signed_word_eqI)

lemma go_quo_minus: "x \<noteq> MinInt \<Longrightarrow> go_quo (- x) b = - go_quo x b"
  by (simp add: go_quo_def sint_minus_exact [OF not_MinInt] sdiv_minus_left)

lemma go_rem_minus: "x \<noteq> MinInt \<Longrightarrow> go_rem (- x) b = - go_rem x b"
  by (simp add: go_rem_def sint_minus_exact [OF not_MinInt] smod_minus_left)

text \<open>Field-wise negation is an involution, and the absolute value of a non-positive
  Period is its negation.\<close>

lemma negate_negate: "negate (negate p) = p"
  by (simp add: negate_def)

lemma abs_nonpos: "x \<le>s 0 \<Longrightarrow> (if x <s 0 then - x else x) = - x" for x :: "'a::len word"
  by (auto simp add: word_sle_eq word_sless_alt signed_eq_0_iff)

lemma absolute_nonpos:
  assumes "Years p \<le>s 0" "Months p \<le>s 0" "Weeks p \<le>s 0" "Days p \<le>s 0"
    "Hours p \<le>s 0" "Minutes p \<le>s 0" "Seconds p \<le>s 0"
  shows "absolute p = negate p"
  unfolding absolute_def negate_def
  by (simp only: abs_nonpos [OF assms(1)] abs_nonpos [OF assms(2)] abs_nonpos [OF assms(3)]
      abs_nonpos [OF assms(4)] abs_nonpos [OF assms(5)] abs_nonpos [OF assms(6)]
      abs_nonpos [OF assms(7)])

section \<open>Normalize\<close>

text \<open>
  C4. Normalize is idempotent: for every Period, of any field values (negative and
  mixed-sign ones included), normalizing a normalized Period returns it unchanged,
  field by field. The only assumption is Go's guarantee that \<^verbatim>\<open>int\<close> has at least
  32 bits.
\<close>

theorem Normalize_idempotent:
  fixes p :: "'a::len word Period"
  assumes "32 \<le> LENGTH('a)"
  shows "Normalize (Normalize p) = Normalize p"
proof -
  note c = sint_consts [OF assms]
  have r60: "\<And>x :: 'a word. go_rem (go_rem x 60) 60 = go_rem x 60"
    and q60: "\<And>x :: 'a word. go_quo (go_rem x 60) 60 = 0"
    by (rule go_rem_idem [OF assms c(1)], simp, simp)
       (rule go_quo_rem_zero [OF assms c(1)], simp, simp)
  have r24: "\<And>x :: 'a word. go_rem (go_rem x 24) 24 = go_rem x 24"
    and q24: "\<And>x :: 'a word. go_quo (go_rem x 24) 24 = 0"
    by (rule go_rem_idem [OF assms c(2)], simp, simp)
       (rule go_quo_rem_zero [OF assms c(2)], simp, simp)
  have r12: "\<And>x :: 'a word. go_rem (go_rem x 12) 12 = go_rem x 12"
    and q12: "\<And>x :: 'a word. go_quo (go_rem x 12) 12 = 0"
    by (rule go_rem_idem [OF assms c(3)], simp, simp)
       (rule go_quo_rem_zero [OF assms c(3)], simp, simp)
  show ?thesis
    by (simp add: Normalize_def Let_def r60 q60 r24 q24 r12 q12)
qed

theorem Normalize_idempotent_witness:
  "(32::nat) \<le> LENGTH(64) \<and>
   Normalize (Normalize \<lparr>Years = 1, Months = - 15, Weeks = 2, Days = 31, Hours = - 27,
       Minutes = 73, Seconds = - 91 :: 64 word\<rparr>)
     = Normalize \<lparr>Years = 1, Months = - 15, Weeks = 2, Days = 31, Hours = - 27,
       Minutes = 73, Seconds = - 91 :: 64 word\<rparr>"
  using Normalize_idempotent [where 'a = 64 and p = "\<lparr>Years = 1, Months = - 15, Weeks = 2,
    Days = 31, Hours = - 27, Minutes = 73, Seconds = - 91 :: 64 word\<rparr>"]
  by simp

text \<open>
  C3 (as stated). With Go's wrapping addition the range claim does not hold for
  every Period of non-negative fields: on a 64-bit platform
  \<^verbatim>\<open>Period{Minutes: 9223372036854775807, Seconds: 60}\<close> has no negative field, the sum
  \<^verbatim>\<open>Seconds/60 + Minutes\<close> wraps to the least int, and the normalized Minutes are -8.
\<close>

theorem Normalize_nonneg_counterexample:
  "0 \<le> sint (Years \<lparr>Years = 0, Months = 0, Weeks = 0, Days = 0, Hours = 0,
       Minutes = 9223372036854775807, Seconds = 60 :: 64 word\<rparr>) \<and>
   0 \<le> sint (Months \<lparr>Years = 0, Months = 0, Weeks = 0, Days = 0, Hours = 0,
       Minutes = 9223372036854775807, Seconds = 60 :: 64 word\<rparr>) \<and>
   0 \<le> sint (Weeks \<lparr>Years = 0, Months = 0, Weeks = 0, Days = 0, Hours = 0,
       Minutes = 9223372036854775807, Seconds = 60 :: 64 word\<rparr>) \<and>
   0 \<le> sint (Days \<lparr>Years = 0, Months = 0, Weeks = 0, Days = 0, Hours = 0,
       Minutes = 9223372036854775807, Seconds = 60 :: 64 word\<rparr>) \<and>
   0 \<le> sint (Hours \<lparr>Years = 0, Months = 0, Weeks = 0, Days = 0, Hours = 0,
       Minutes = 9223372036854775807, Seconds = 60 :: 64 word\<rparr>) \<and>
   0 \<le> sint (Minutes \<lparr>Years = 0, Months = 0, Weeks = 0, Days = 0, Hours = 0,
       Minutes = 9223372036854775807, Seconds = 60 :: 64 word\<rparr>) \<and>
   0 \<le> sint (Seconds \<lparr>Years = 0, Months = 0, Weeks = 0, Days = 0, Hours = 0,
       Minutes = 9223372036854775807, Seconds = 60 :: 64 word\<rparr>) \<and>
   sint (Minutes (Normalize \<lparr>Years = 0, Months = 0, Weeks = 0, Days = 0, Hours = 0,
       Minutes = 9223372036854775807, Seconds = 60 :: 64 word\<rparr>)) = - 8"
  by (simp add: Normalize_def go_quo_def go_rem_def Let_def)

text \<open>
  C3 (amended). For every Period whose seven fields are non-negative and whose
  carried sums (\<^verbatim>\<open>Seconds/60 + Minutes\<close>, that sum \<^verbatim>\<open>/60 + Hours\<close>, that sum
  \<^verbatim>\<open>/24 + Days + 7*Weeks\<close>, and \<^verbatim>\<open>Months/12 + Years\<close>) do not exceed the greatest
  int, Normalize returns a Period with \<open>0 \<le> Seconds < 60\<close>, \<open>0 \<le> Minutes < 60\<close>,
  \<open>0 \<le> Hours < 24\<close>, \<open>0 \<le> Months < 12\<close> and \<open>Weeks = 0\<close>; Years and Days absorb
  what was carried: the total of months (12 per year) and the total of seconds
  (7 days per week, 24 hours per day, 60 minutes per hour, 60 seconds per minute)
  are those of the input.
\<close>

theorem Normalize_nonneg:
  fixes p :: "'a::len word Period"
  assumes len: "32 \<le> LENGTH('a)"
    and nonneg: "0 \<le> sint (Years p)" "0 \<le> sint (Months p)" "0 \<le> sint (Weeks p)"
      "0 \<le> sint (Days p)" "0 \<le> sint (Hours p)" "0 \<le> sint (Minutes p)" "0 \<le> sint (Seconds p)"
    and minutes_fit: "sint (Seconds p) div 60 + sint (Minutes p) < 2 ^ (LENGTH('a) - 1)"
    and hours_fit: "(sint (Seconds p) div 60 + sint (Minutes p)) div 60 + sint (Hours p)
        < 2 ^ (LENGTH('a) - 1)"
    and days_fit: "((sint (Seconds p) div 60 + sint (Minutes p)) div 60 + sint (Hours p)) div 24
        + sint (Days p) + sint (Weeks p) * 7 < 2 ^ (LENGTH('a) - 1)"
    and years_fit: "sint (Months p) div 12 + sint (Years p) < 2 ^ (LENGTH('a) - 1)"
  shows "0 \<le> sint (Seconds (Normalize p)) \<and> sint (Seconds (Normalize p)) < 60 \<and>
     0 \<le> sint (Minutes (Normalize p)) \<and> sint (Minutes (Normalize p)) < 60 \<and>
     0 \<le> sint (Hours (Normalize p)) \<and> sint (Hours (Normalize p)) < 24 \<and>
     0 \<le> sint (Months (Normalize p)) \<and> sint (Months (Normalize p)) < 12 \<and>
     Weeks (Normalize p) = 0 \<and>
     sint (Years (Normalize p)) * 12 + sint (Months (Normalize p))
       = sint (Years p) * 12 + sint (Months p) \<and>
     ((sint (Days (Normalize p)) * 24 + sint (Hours (Normalize p))) * 60
         + sint (Minutes (Normalize p))) * 60 + sint (Seconds (Normalize p))
       = (((sint (Days p) + sint (Weeks p) * 7) * 24 + sint (Hours p)) * 60
         + sint (Minutes p)) * 60 + sint (Seconds p)"
proof -
  note c = sint_consts [OF len]
  define S M H D W Mo Y where "S = sint (Seconds p)" and "M = sint (Minutes p)"
    and "H = sint (Hours p)" and "D = sint (Days p)" and "W = sint (Weeks p)"
    and "Mo = sint (Months p)" and "Y = sint (Years p)"
  note defs = S_def M_def H_def D_def W_def Mo_def Y_def
  define q1 r1 where "q1 = S div 60" and "r1 = S mod 60"
  define q2 r2 where "q2 = (q1 + M) div 60" and "r2 = (q1 + M) mod 60"
  define q3 r3 where "q3 = (q2 + H) div 24" and "r3 = (q2 + H) mod 24"
  define q4 r4 where "q4 = Mo div 12" and "r4 = Mo mod 12"
  note qr = q1_def r1_def q2_def r2_def q3_def r3_def q4_def r4_def
  define m0 :: "'a word" where "m0 = go_quo (Seconds p) 60 + Minutes p"
  define h0 :: "'a word" where "h0 = go_quo m0 60 + Hours p"
  have nn: "0 \<le> Y" "0 \<le> Mo" "0 \<le> W" "0 \<le> D" "0 \<le> H" "0 \<le> M" "0 \<le> S"
    using nonneg by (simp_all only: defs)
  have fit: "q1 + M < 2 ^ (LENGTH('a) - 1)" "q2 + H < 2 ^ (LENGTH('a) - 1)"
    "q3 + D + W * 7 < 2 ^ (LENGTH('a) - 1)" "q4 + Y < 2 ^ (LENGTH('a) - 1)"
    using minutes_fit hours_fit days_fit years_fit by (simp_all only: defs qr)
  have lo: "- (2 ^ (LENGTH('a) - 1)) \<le> (0::int)" by simp
  have q1nn: "0 \<le> q1" using nn by (simp add: q1_def pos_imp_zdiv_nonneg_iff)
  have q2nn: "0 \<le> q2" using nn q1nn by (simp add: q2_def pos_imp_zdiv_nonneg_iff)
  have q3nn: "0 \<le> q3" using nn q2nn by (simp add: q3_def pos_imp_zdiv_nonneg_iff)
  have q4nn: "0 \<le> q4" using nn by (simp add: q4_def pos_imp_zdiv_nonneg_iff)
  have qS: "sint (go_quo (Seconds p) 60) = q1"
    using nn by (simp add: sint_go_quo [OF c(1)] sdiv_pos_divisor S_def q1_def)
  have m0: "sint m0 = q1 + M"
    unfolding m0_def M_def qS [symmetric]
  proof (rule sint_add_exact)
    show "- (2 ^ (LENGTH('a) - 1)) \<le> sint (go_quo (Seconds p) 60) + sint (Minutes p)"
      unfolding qS M_def [symmetric] using lo q1nn nn by linarith
    show "sint (go_quo (Seconds p) 60) + sint (Minutes p) < 2 ^ (LENGTH('a) - 1)"
      unfolding qS M_def [symmetric] by (rule fit)
  qed
  have qm: "sint (go_quo m0 60) = q2"
    using q1nn nn by (simp add: sint_go_quo [OF c(1)] sdiv_pos_divisor m0 q2_def)
  have h0: "sint h0 = q2 + H"
    unfolding h0_def H_def qm [symmetric]
  proof (rule sint_add_exact)
    show "- (2 ^ (LENGTH('a) - 1)) \<le> sint (go_quo m0 60) + sint (Hours p)"
      unfolding qm H_def [symmetric] using lo q2nn nn by linarith
    show "sint (go_quo m0 60) + sint (Hours p) < 2 ^ (LENGTH('a) - 1)"
      unfolding qm H_def [symmetric] by (rule fit)
  qed
  have qh: "sint (go_quo h0 24) = q3"
    using q2nn nn by (simp add: sint_go_quo [OF c(2)] sdiv_pos_divisor h0 q3_def)
  have w7: "sint (Weeks p * 7) = W * 7"
  proof -
    have "sint (Weeks p * 7) = sint (Weeks p) * sint (7 :: 'a word)"
    proof (rule sint_mult_exact)
      show "- (2 ^ (LENGTH('a) - 1)) \<le> sint (Weeks p) * sint (7 :: 'a word)"
        unfolding c(4) W_def [symmetric] using lo nn by linarith
      show "sint (Weeks p) * sint (7 :: 'a word) < 2 ^ (LENGTH('a) - 1)"
        unfolding c(4) W_def [symmetric] using fit(3) nn q3nn by linarith
    qed
    then show ?thesis by (simp only: c W_def)
  qed
  have d1: "sint (go_quo h0 24 + Days p) = q3 + D"
    unfolding D_def qh [symmetric]
  proof (rule sint_add_exact)
    show "- (2 ^ (LENGTH('a) - 1)) \<le> sint (go_quo h0 24) + sint (Days p)"
      unfolding qh D_def [symmetric] using lo q3nn nn by linarith
    show "sint (go_quo h0 24) + sint (Days p) < 2 ^ (LENGTH('a) - 1)"
      unfolding qh D_def [symmetric] using fit(3) nn by linarith
  qed
  have days: "sint (go_quo h0 24 + Days p + Weeks p * 7) = q3 + D + W * 7"
    unfolding d1 [symmetric] w7 [symmetric]
  proof (rule sint_add_exact)
    show "- (2 ^ (LENGTH('a) - 1)) \<le> sint (go_quo h0 24 + Days p) + sint (Weeks p * 7)"
      unfolding d1 w7 using lo q3nn nn by linarith
    show "sint (go_quo h0 24 + Days p) + sint (Weeks p * 7) < 2 ^ (LENGTH('a) - 1)"
      unfolding d1 w7 by (rule fit)
  qed
  have qMo: "sint (go_quo (Months p) 12) = q4"
    using nn by (simp add: sint_go_quo [OF c(3)] sdiv_pos_divisor Mo_def q4_def)
  have years: "sint (go_quo (Months p) 12 + Years p) = q4 + Y"
    unfolding Y_def qMo [symmetric]
  proof (rule sint_add_exact)
    show "- (2 ^ (LENGTH('a) - 1)) \<le> sint (go_quo (Months p) 12) + sint (Years p)"
      unfolding qMo Y_def [symmetric] using lo q4nn nn by linarith
    show "sint (go_quo (Months p) 12) + sint (Years p) < 2 ^ (LENGTH('a) - 1)"
      unfolding qMo Y_def [symmetric] by (rule fit)
  qed
  have secs: "sint (go_rem (Seconds p) 60) = r1"
    using nn by (simp add: sint_go_rem [OF len c(1)] smod_pos_divisor S_def r1_def)
  have mins: "sint (go_rem m0 60) = r2"
    using q1nn nn by (simp add: sint_go_rem [OF len c(1)] smod_pos_divisor m0 r2_def)
  have hrs: "sint (go_rem h0 24) = r3"
    using q2nn nn by (simp add: sint_go_rem [OF len c(2)] smod_pos_divisor h0 r3_def)
  have mons: "sint (go_rem (Months p) 12) = r4"
    using nn by (simp add: sint_go_rem [OF len c(3)] smod_pos_divisor Mo_def r4_def)
  have N: "Normalize p = \<lparr>Years = go_quo (Months p) 12 + Years p, Months = go_rem (Months p) 12,
      Weeks = 0, Days = go_quo h0 24 + Days p + Weeks p * 7, Hours = go_rem h0 24,
      Minutes = go_rem m0 60, Seconds = go_rem (Seconds p) 60\<rparr>"
    by (simp add: Normalize_def Let_def m0_def h0_def)
  have eqs: "q1 * 60 + r1 = S" "q2 * 60 + r2 = q1 + M" "q3 * 24 + r3 = q2 + H"
    "q4 * 12 + r4 = Mo"
    by (simp_all add: qr)
  have e1: "(q4 + Y) * 12 + r4 = Y * 12 + Mo"
    using eqs(4) by (simp add: distrib_right)
  have e2: "(((q3 + D + W * 7) * 24 + r3) * 60 + r2) * 60 + r1
      = (((D + W * 7) * 24 + H) * 60 + M) * 60 + S"
    using eqs(1-3) by (simp add: distrib_right)
  have r: "0 \<le> r1" "r1 < 60" "0 \<le> r2" "r2 < 60" "0 \<le> r3" "r3 < 24" "0 \<le> r4" "r4 < 12"
    by (simp_all add: qr)
  show ?thesis
    unfolding N defs [symmetric]
    using e1 e2 r by (simp only: Period.simps days years secs mins hrs mons simp_thms)
qed


text \<open>
  The witness is the scenario of the specification and of \<^verbatim>\<open>TestPeriodNormalize\<close>:
  \<^verbatim>\<open>Period{Years:1, Months:15, Weeks:2, Days:31, Hours:27, Minutes:73, Seconds:91}\<close>
  normalizes to \<^verbatim>\<open>Period{Years:2, Months:3, Days:46, Hours:4, Minutes:14, Seconds:31}\<close>.
\<close>

theorem Normalize_nonneg_witness:
  "Normalize \<lparr>Years = 1, Months = 15, Weeks = 2, Days = 31, Hours = 27, Minutes = 73,
       Seconds = 91 :: 64 word\<rparr>
     = \<lparr>Years = 2, Months = 3, Weeks = 0, Days = 46, Hours = 4, Minutes = 14, Seconds = 31\<rparr> \<and>
   sint (Years (Normalize \<lparr>Years = 1, Months = 15, Weeks = 2, Days = 31, Hours = 27,
       Minutes = 73, Seconds = 91 :: 64 word\<rparr>)) * 12
     + sint (Months (Normalize \<lparr>Years = 1, Months = 15, Weeks = 2, Days = 31, Hours = 27,
       Minutes = 73, Seconds = 91 :: 64 word\<rparr>)) = 1 * 12 + 15"
  using Normalize_nonneg [where 'a = 64 and p = "\<lparr>Years = 1, Months = 15, Weeks = 2,
    Days = 31, Hours = 27, Minutes = 73, Seconds = 91 :: 64 word\<rparr>"]
  by (simp add: Normalize_def go_quo_def go_rem_def Let_def)

text \<open>
  C10 (as stated). Go's negation of the least int is the least int again, so the
  claim fails for \<^verbatim>\<open>Period{Seconds: math.MinInt64}\<close>: the Period and its field-wise
  negation are the same value, with normalized Seconds -8, not 8.
\<close>

theorem Normalize_negate_counterexample:
  "Normalize (negate \<lparr>Years = 0, Months = 0, Weeks = 0, Days = 0, Hours = 0, Minutes = 0,
       Seconds = - 9223372036854775808 :: 64 word\<rparr>)
   \<noteq> negate (Normalize \<lparr>Years = 0, Months = 0, Weeks = 0, Days = 0, Hours = 0, Minutes = 0,
       Seconds = - 9223372036854775808 :: 64 word\<rparr>)"
  by (simp add: Normalize_def negate_def go_quo_def go_rem_def Let_def)

text \<open>
  The non-positive form of the claim needs the same care about the raw sums:
  \<^verbatim>\<open>Period{Minutes: -9223372036854775807, Seconds: -60}\<close> has no positive field and
  no field equal to the least int, but its raw sum \<^verbatim>\<open>Seconds/60 + Minutes\<close> is the
  least int, and it does not normalize to the negation of the normalization of its
  absolute values (the Minutes are -8 on both sides).
\<close>

lemma raw_sum_least_int_example:
  "Normalize \<lparr>Years = 0, Months = 0, Weeks = 0, Days = 0, Hours = 0,
       Minutes = - 9223372036854775807, Seconds = - 60 :: 64 word\<rparr>
   \<noteq> negate (Normalize (absolute \<lparr>Years = 0, Months = 0, Weeks = 0, Days = 0, Hours = 0,
       Minutes = - 9223372036854775807, Seconds = - 60 :: 64 word\<rparr>))"
  "go_quo (Seconds \<lparr>Years = 0, Months = 0, Weeks = 0, Days = 0, Hours = 0,
       Minutes = - 9223372036854775807, Seconds = - 60 :: 64 word\<rparr>) 60
     + Minutes \<lparr>Years = 0, Months = 0, Weeks = 0, Days = 0, Hours = 0,
       Minutes = - 9223372036854775807, Seconds = - 60 :: 64 word\<rparr> = MinInt"
  by (simp_all add: Normalize_def negate_def absolute_def go_quo_def go_rem_def Let_def MinInt_def
     word_sless_alt signed_divide_int_def signed_modulo_int_def)

text \<open>
  C10 (amended). For every Period in which none of the four values that Normalize
  divides (Seconds, the raw sum \<^verbatim>\<open>Seconds/60 + Minutes\<close>, the raw sum of that
  \<^verbatim>\<open>/60 + Hours\<close>, and Months) is the least int, Normalize commutes with field-wise
  negation: every quotient and remainder truncates towards zero, and the sums wrap
  alike on both sides. Consequently every such Period whose fields are all
  non-positive normalizes to the exact negation of the normalization of its
  absolute values.
\<close>

theorem Normalize_negate:
  fixes p :: "'a::len word Period"
  assumes "Seconds p \<noteq> MinInt"
    and "go_quo (Seconds p) 60 + Minutes p \<noteq> MinInt"
    and "go_quo (go_quo (Seconds p) 60 + Minutes p) 60 + Hours p \<noteq> MinInt"
    and "Months p \<noteq> MinInt"
  shows "Normalize (negate p) = negate (Normalize p) \<and>
     (Years p \<le>s 0 \<and> Months p \<le>s 0 \<and> Weeks p \<le>s 0 \<and> Days p \<le>s 0 \<and>
      Hours p \<le>s 0 \<and> Minutes p \<le>s 0 \<and> Seconds p \<le>s 0 \<longrightarrow>
        Normalize p = negate (Normalize (absolute p)))"
proof -
  define m0 where "m0 = go_quo (Seconds p) 60 + Minutes p"
  define h0 where "h0 = go_quo m0 60 + Hours p"
  have f: "go_quo (Seconds p) 60 + Minutes p = m0" "go_quo m0 60 + Hours p = h0"
    by (simp_all add: m0_def h0_def)
  have m0: "m0 \<noteq> MinInt" using assms(2) by (simp add: m0_def)
  have h0: "h0 \<noteq> MinInt" using assms(3) by (simp add: h0_def m0_def)
  have m: "- go_quo (Seconds p) 60 - Minutes p = - m0"
    by (simp add: m0_def)
  have h: "- go_quo m0 60 - Hours p = - h0"
    by (simp add: h0_def)
  have l: "Normalize (negate p) = \<lparr>Years = - go_quo (Months p) 12 - Years p,
      Months = - go_rem (Months p) 12, Weeks = 0,
      Days = - go_quo h0 24 - Days p - Weeks p * 7, Hours = - go_rem h0 24,
      Minutes = - go_rem m0 60, Seconds = - go_rem (Seconds p) 60\<rparr>"
    by (simp add: Normalize_def negate_def Let_def go_quo_minus [OF assms(1)]
        go_rem_minus [OF assms(1)] go_quo_minus [OF assms(4)] go_rem_minus [OF assms(4)]
        m go_quo_minus [OF m0] go_rem_minus [OF m0] h go_quo_minus [OF h0] go_rem_minus [OF h0])
  have r: "negate (Normalize p) = \<lparr>Years = - go_quo (Months p) 12 - Years p,
      Months = - go_rem (Months p) 12, Weeks = 0,
      Days = - go_quo h0 24 - Days p - Weeks p * 7, Hours = - go_rem h0 24,
      Minutes = - go_rem m0 60, Seconds = - go_rem (Seconds p) 60\<rparr>"
    by (simp add: Normalize_def negate_def Let_def f)
  have odd: "Normalize (negate p) = negate (Normalize p)"
    by (simp only: l r)
  have "Normalize p = negate (Normalize (absolute p))"
    if "Years p \<le>s 0" "Months p \<le>s 0" "Weeks p \<le>s 0" "Days p \<le>s 0"
      "Hours p \<le>s 0" "Minutes p \<le>s 0" "Seconds p \<le>s 0"
    unfolding absolute_nonpos [OF that] odd negate_negate ..
  with odd show ?thesis by simp
qed

text \<open>
  The witness is the negation of the scenario of \<^verbatim>\<open>TestPeriodNormalize\<close>: all its
  fields are negative, its absolute values are the fields of that scenario, and
  it normalizes to the negation of that scenario's result.
\<close>

theorem Normalize_negate_witness:
  "Seconds \<lparr>Years = - 1, Months = - 15, Weeks = - 2, Days = - 31, Hours = - 27,
       Minutes = - 73, Seconds = - 91 :: 64 word\<rparr> \<noteq> MinInt \<and>
   Months \<lparr>Years = - 1, Months = - 15, Weeks = - 2, Days = - 31, Hours = - 27,
       Minutes = - 73, Seconds = - 91 :: 64 word\<rparr> \<noteq> MinInt \<and>
   (- 91 :: 64 word) \<le>s 0 \<and>
   absolute \<lparr>Years = - 1, Months = - 15, Weeks = - 2, Days = - 31, Hours = - 27,
       Minutes = - 73, Seconds = - 91 :: 64 word\<rparr>
     = \<lparr>Years = 1, Months = 15, Weeks = 2, Days = 31, Hours = 27, Minutes = 73, Seconds = 91\<rparr> \<and>
   Normalize (negate \<lparr>Years = - 1, Months = - 15, Weeks = - 2, Days = - 31, Hours = - 27,
       Minutes = - 73, Seconds = - 91 :: 64 word\<rparr>)
     = negate (Normalize \<lparr>Years = - 1, Months = - 15, Weeks = - 2, Days = - 31,
       Hours = - 27, Minutes = - 73, Seconds = - 91 :: 64 word\<rparr>) \<and>
   Normalize \<lparr>Years = - 1, Months = - 15, Weeks = - 2, Days = - 31, Hours = - 27,
       Minutes = - 73, Seconds = - 91 :: 64 word\<rparr>
     = negate (Normalize (absolute \<lparr>Years = - 1, Months = - 15, Weeks = - 2, Days = - 31,
       Hours = - 27, Minutes = - 73, Seconds = - 91 :: 64 word\<rparr>)) \<and>
   Normalize \<lparr>Years = - 1, Months = - 15, Weeks = - 2, Days = - 31, Hours = - 27,
       Minutes = - 73, Seconds = - 91 :: 64 word\<rparr>
     = negate \<lparr>Years = 2, Months = 3, Weeks = 0, Days = 46, Hours = 4, Minutes = 14,
       Seconds = 31\<rparr>"
  using Normalize_negate [of "\<lparr>Years = - 1, Months = - 15, Weeks = - 2, Days = - 31,
    Hours = - 27, Minutes = - 73, Seconds = - 91 :: 64 word\<rparr>"]
  by (simp add: Normalize_def negate_def absolute_def go_quo_def go_rem_def Let_def MinInt_def
      word_sless_alt word_sle_eq)

section \<open>The borrow/carry pass\<close>



section \<open>FromDuration\<close>

text \<open>
  On every platform the overflow check is one-sided: the error is returned exactly
  when the truncated second count is above the greatest \<^verbatim>\<open>int\<close>. With a 64-bit
  \<^verbatim>\<open>int\<close> that never happens and the count always fits.
\<close>

lemma sint_Second: "sint Second = 1000000000"
  by (simp add: Second_def)

lemma sint_maxSeconds:
  assumes "LENGTH('a::len) \<le> 64"
  shows "sint (word_of_int (2 ^ (LENGTH('a) - 1) - 1) :: 64 word) = 2 ^ (LENGTH('a) - 1) - 1"
proof (rule sint_in_range)
  have "(2::int) ^ (LENGTH('a) - 1) \<le> 2 ^ 63"
    using assms by (intro power_increasing) auto
  then show "(2::int) ^ (LENGTH('a) - 1) - 1 < 2 ^ (LENGTH(64) - 1)" by simp
  have "(0::int) < 2 ^ (LENGTH('a) - 1)" by simp
  then have "(0::int) \<le> 2 ^ (LENGTH('a) - 1) - 1" by linarith
  moreover have "- (2 ^ (LENGTH(64) - 1)) \<le> (0::int)" by simp
  ultimately show "- (2 ^ (LENGTH(64) - 1)) \<le> (2::int) ^ (LENGTH('a) - 1) - 1"
    by (rule order_trans [rotated])
qed

lemma FromDuration_cases:
  assumes "LENGTH('a::len) \<le> 64"
  shows "(FromDuration d :: error + 'a word Period)
     = (if 2 ^ (LENGTH('a) - 1) - 1 < sint d sdiv 1000000000 then Inl errPeriodOverflow
        else Inr (Normalize (zero_Period\<lparr>Seconds := scast (go_quo d Second)\<rparr>)))"
  unfolding FromDuration_def Let_def word_sless_alt sint_maxSeconds [OF assms]
    sint_go_quo [OF sint_Second, simplified] ..

lemma FromDuration_Overflow_iff:
  assumes "LENGTH('a::len) \<le> 64"
  shows "(FromDuration d :: error + 'a word Period) = Inl errPeriodOverflow
     \<longleftrightarrow> 2 ^ (LENGTH('a) - 1) - 1 < sint d sdiv 1000000000"
  unfolding FromDuration_cases [OF assms] by simp

lemma FromDuration_int64:
  "(FromDuration d :: error + 64 word Period)
     = Inr (Normalize (zero_Period\<lparr>Seconds := go_quo d Second\<rparr>))"
proof -
  have "sint (go_quo d Second) < 2 ^ 63"
    using sint_lt [of "go_quo d Second"] by simp
  then show ?thesis
    by (simp add: FromDuration_def Let_def word_sless_alt)
qed

lemma FromDuration_example:
  "(FromDuration (27 * Hour + 74 * Minute + 63 * Second) :: error + 64 word Period)
     = Inr \<lparr>Years = 0, Months = 0, Weeks = 0, Days = 1, Hours = 4, Minutes = 15, Seconds = 3\<rparr>"
  "(FromDuration (27 * Hour + 74 * Minute + 63 * Second) :: error + 32 word Period)
     = Inr \<lparr>Years = 0, Months = 0, Weeks = 0, Days = 1, Hours = 4, Minutes = 15, Seconds = 3\<rparr>"
  by (simp_all add: FromDuration_def Hour_def Minute_def Second_def go_quo_def go_rem_def Normalize_def zero_Period_def
      Let_def word_sless_alt)


text \<open>
  C6. The claim holds where \<^verbatim>\<open>int\<close> has 64 bits (\<open>FromDuration_int64\<close>). Where it
  has 32 bits, a duration whose second count is below the least \<^verbatim>\<open>int\<close> is neither
  refused nor kept: for -3000000000 seconds the check \<^verbatim>\<open>seconds > maxSeconds\<close> is
  false, \<^verbatim>\<open>int(seconds)\<close> wraps to 1294967296, and the Period returned is a positive
  one of 14988 days.
\<close>

theorem FromDuration_int32_negative:
  "(FromDuration (- 3000000000 * Second) :: error + 32 word Period)
     = Inr \<lparr>Years = 0, Months = 0, Weeks = 0, Days = 14988, Hours = 1, Minutes = 8, Seconds = 16\<rparr>"
  by (simp add: FromDuration_def Second_def go_quo_def go_rem_def Normalize_def zero_Period_def
      Let_def word_sless_alt)

section \<open>Matching the patterns\<close>

text \<open>
  What the matcher does on the single building block of both patterns, a number
  followed by its letter, then on the texts of the two grammars.
\<close>

lemma first_some_append:
  "first_some f (xs @ ys) = (case first_some f xs of Some y \<Rightarrow> Some y | None \<Rightarrow> first_some f ys)"
  by (induction xs) (auto split: option.splits)

lemma first_some_map: "first_some f (map g xs) = first_some (\<lambda>x. f (g x)) xs"
  by (induction xs) (auto split: option.splits)

lemma first_some_digit_prefixes:
  assumes "\<And>x xs. is_digit x \<Longrightarrow> g (x # xs) = None"
  shows "first_some (\<lambda>(ds, r). g r) (digit_prefixes s)
     = (if takeWhile is_digit s = [] then None else g (dropWhile is_digit s))"
proof (induction s)
  case Nil
  then show ?case by simp
next
  case (Cons c s)
  show ?case
  proof (cases "is_digit c")
    case False
    then show ?thesis by simp
  next
    case True
    have step: "first_some (\<lambda>(ds, r). g r) (digit_prefixes (c # s))
        = (case first_some (\<lambda>(ds, r). g r) (digit_prefixes s) of
             Some y \<Rightarrow> Some y | None \<Rightarrow> g s)"
      using True
      by (simp add: first_some_append first_some_map case_prod_unfold split: option.splits)
    show ?thesis
    proof (cases "takeWhile is_digit s = []")
      case e: True
      then have "dropWhile is_digit s = s"
        by (metis append_Nil takeWhile_dropWhile_id)
      with e True show ?thesis
        unfolding step Cons.IH by simp
    next
      case ne: False
      then obtain x xs where "s = x # xs" "is_digit x"
        by (cases s) (auto split: if_splits)
      then have "g s = None" using assms by simp
      with ne True show ?thesis
        unfolding step Cons.IH by (simp split: option.splits)
    qed
  qed
qed

lemma lengths_takeWhile:
  "length s - length (dropWhile P s) = length (takeWhile P s)"
  by (metis add_diff_cancel_right' length_append takeWhile_dropWhile_id)

lemma backtrack_unit_group:
  assumes "\<not> is_digit u"
  shows "backtrack (Group [] (Cat (Group name Digits) (Lit u))) s m k =
    (if lead s = Some u
     then k (tl (dropWhile is_digit s))
            (([], takeWhile is_digit s @ [u]) # (name, takeWhile is_digit s) # m)
     else None)"
proof -
  define g where "g r = (case r of [] \<Rightarrow> None
      | x # xs \<Rightarrow> if x = u
          then k xs (([], take (length s - length xs) s) # (name, take (length s - length r) s) # m)
          else None)" for r
  have g: "\<And>x xs. is_digit x \<Longrightarrow> g (x # xs) = None"
    using assms by (auto simp: g_def)
  have b: "backtrack (Group [] (Cat (Group name Digits) (Lit u))) s m k
     = first_some (\<lambda>(ds, r). g r) (digit_prefixes s)"
    by (simp add: g_def case_prod_unfold cong: list.case_cong)
  show ?thesis
  proof (cases "lead s = Some u")
    case True
    then obtain xs where d: "dropWhile is_digit s = u # xs" and t: "takeWhile is_digit s \<noteq> []"
      by (auto simp: lead_def split: if_splits list.splits)
    have l1: "length s - length xs = Suc (length (takeWhile is_digit s))"
      using lengths_takeWhile [of s is_digit] d
      by (metis Suc_diff_le diff_Suc_Suc length_Cons length_dropWhile_le)
    have s: "s = takeWhile is_digit s @ u # xs"
      using d by (metis takeWhile_dropWhile_id)
    have t1: "take (Suc (length (takeWhile is_digit s))) s = takeWhile is_digit s @ [u]"
      by (subst (2) s) simp
    have t2: "take (length s - length (u # xs)) s = takeWhile is_digit s"
      using lengths_takeWhile [of s is_digit] d
      by (metis append_eq_conv_conj takeWhile_dropWhile_id)
    have "g (u # xs) = k xs (([], takeWhile is_digit s @ [u]) # (name, takeWhile is_digit s) # m)"
      using t2 by (simp add: g_def l1 t1)
    with True t d show ?thesis
      unfolding b by (simp add: first_some_digit_prefixes [of g, OF g])
  next
    case False
    have "(if takeWhile is_digit s = [] then None else g (dropWhile is_digit s)) = None"
    proof (cases "takeWhile is_digit s = []")
      case True
      then show ?thesis by simp
    next
      case ne: False
      show ?thesis
      proof (cases "dropWhile is_digit s")
        case Nil
        with ne show ?thesis unfolding g_def Nil by simp
      next
        case (Cons x xs)
        with ne False have "x \<noteq> u" by (simp add: lead_def)
        with ne show ?thesis unfolding g_def Cons by simp
      qed
    qed
    then have "first_some (\<lambda>(ds, r). g r) (digit_prefixes s) = None"
      by (simp only: first_some_digit_prefixes [of g, OF g])
    with False show ?thesis
      by (simp only: b if_False)
  qed
qed

lemma backtrack_component:
  assumes "\<not> is_digit u"
  shows "backtrack (component name u) s m k =
    (if lead s = Some u
     then (case k (tl (dropWhile is_digit s))
                  (([], takeWhile is_digit s @ [u]) # (name, takeWhile is_digit s) # m)
           of Some res \<Rightarrow> Some res | None \<Rightarrow> k s m)
     else k s m)"
  unfolding component_def backtrack.simps(4) backtrack_unit_group [OF assms] by simp

lemma takeWhile_number:
  assumes "list_all is_digit n" "\<not> is_digit u"
  shows "takeWhile is_digit (n @ u # r) = n" "dropWhile is_digit (n @ u # r) = u # r"
  using assms by (induction n) auto

lemma lead_Nil [simp]: "lead [] = None"
  by (simp add: lead_def)

lemma lead_nondigit [simp]: "\<not> is_digit c \<Longrightarrow> lead (c # r) = None"
  by (simp add: lead_def)

lemma lead_number:
  assumes "number n" "\<not> is_digit u"
  shows "lead (n @ u # r) = Some u"
  using assms by (simp add: lead_def number_def takeWhile_number)

lemma lead_block:
  assumes "optional_number v" "\<not> is_digit u"
  shows "lead (block v u @ r) = (case v of None \<Rightarrow> lead r | Some n \<Rightarrow> Some u)"
  using assms by (cases v) (simp_all add: lead_number)

lemma lead_time_text [simp]: "lead (time_text tm) = None"
  by (cases tm) (auto simp: is_digit_def)

lemma lead_time_text_append [simp]: "lead (time_text tm @ []) = None"
  by simp

lemma units_not_digits [simp]:
  "\<not> is_digit CHR ''Y''" "\<not> is_digit CHR ''M''" "\<not> is_digit CHR ''D''" "\<not> is_digit CHR ''T''"
  "\<not> is_digit CHR ''H''" "\<not> is_digit CHR ''S''" "\<not> is_digit CHR ''W''" "\<not> is_digit CHR ''P''"
  by (simp_all add: is_digit_def)

lemma component_intro:
  assumes "\<not> is_digit u" "optional_number v" "v = None \<Longrightarrow> lead r \<noteq> Some u"
    and "k r (sub name u v @ m) = Some res"
  shows "backtrack (component name u) (block v u @ r) m k = Some res"
proof (cases v)
  case None
  with assms show ?thesis by (simp add: backtrack_component)
next
  case (Some n)
  with assms have "number n" by simp
  then have "lead (n @ u # r) = Some u" "takeWhile is_digit (n @ u # r) = n"
    "dropWhile is_digit (n @ u # r) = u # r"
    using assms(1) by (simp_all add: lead_number takeWhile_number number_def)
  with assms(4) Some show ?thesis
    by (simp add: backtrack_component [OF assms(1)])
qed

lemma component_elim:
  assumes "\<not> is_digit u" "backtrack (component name u) s m k = Some res"
  obtains v r where "optional_number v" "s = block v u @ r" "k r (sub name u v @ m) = Some res"
proof (cases "lead s = Some u \<and> k (tl (dropWhile is_digit s))
    (([], takeWhile is_digit s @ [u]) # (name, takeWhile is_digit s) # m) = Some res")
  case True
  define n where "n = takeWhile is_digit s"
  define r where "r = tl (dropWhile is_digit s)"
  from True have "n \<noteq> []" "dropWhile is_digit s = u # r"
    by (auto simp: lead_def n_def r_def split: if_splits list.splits)
  then have "s = n @ u # r" "number n"
    unfolding n_def number_def
    by (metis takeWhile_dropWhile_id, simp add: list_all_iff) (meson set_takeWhileD)
  moreover have "k r (sub name u (Some n) @ m) = Some res"
    using True by (simp add: n_def r_def)
  ultimately show ?thesis
    using that [of "Some n" r] by simp
next
  case False
  with assms(2) have "k s m = Some res"
    by (auto simp: backtrack_component [OF assms(1)] split: if_splits option.splits)
  then show ?thesis
    using that [of None s] by simp
qed

lemma lead_units:
  assumes "optional_number a" "optional_number b"
  shows "lead (block a CHR ''M'' @ block b CHR ''D'' @ time_text tm) \<noteq> Some CHR ''Y''"
    and "lead (block b CHR ''D'' @ time_text tm) \<noteq> Some CHR ''M''"
    and "lead (time_text tm) \<noteq> Some CHR ''D''"
    and "lead (block a CHR ''M'' @ block b CHR ''S'') \<noteq> Some CHR ''H''"
    and "lead (block b CHR ''S'') \<noteq> Some CHR ''M''"
  using assms lead_block [of b "CHR ''S''" "[]"]
  by (simp_all add: lead_block split: option.splits)

lemma backtrack_time_text:
  assumes "optional_number h" "optional_number mi" "optional_number s"
  shows "backtrack (Group [] timeRe) (time_text (Some (h, mi, s))) m at_end
     = Some (time_sub (Some (h, mi, s)) @ m)"
proof -
  define tt where "tt = time_text (Some (h, mi, s))"
  define k where "k = (\<lambda>s' m'. at_end s' (([], take (length tt - length s') tt) # m'))"
  have k: "k [] m' = Some (([], tt) # m')" for m'
    by (simp add: k_def at_end_def)
  have s3: "backtrack (component ''second'' CHR ''S'') (block s CHR ''S'' @ []) m3 k
      = Some (([], tt) # sub ''second'' CHR ''S'' s @ m3)" for m3
    by (rule component_intro) (simp_all add: assms k)
  have s2: "backtrack (component ''minute'' CHR ''M'') (block mi CHR ''M'' @ block s CHR ''S'') m2
        (\<lambda>s' m'. backtrack (component ''second'' CHR ''S'') s' m' k)
      = Some (([], tt) # sub ''second'' CHR ''S'' s @ sub ''minute'' CHR ''M'' mi @ m2)" for m2
  proof (rule component_intro)
    show "lead (block s CHR ''S'') \<noteq> Some CHR ''M''" by (rule lead_units(5) [OF assms(2,3)])
    show "backtrack (component ''second'' CHR ''S'') (block s CHR ''S'') (sub ''minute'' CHR ''M'' mi @ m2) k
      = Some (([], tt) # sub ''second'' CHR ''S'' s @ sub ''minute'' CHR ''M'' mi @ m2)"
      using s3 [of "sub ''minute'' CHR ''M'' mi @ m2"] by simp
  qed (simp_all add: assms)
  have s1: "backtrack (component ''hour'' CHR ''H'')
        (block h CHR ''H'' @ block mi CHR ''M'' @ block s CHR ''S'') m1
        (\<lambda>s' m'. backtrack (component ''minute'' CHR ''M'') s' m'
           (\<lambda>s' m'. backtrack (component ''second'' CHR ''S'') s' m' k))
      = Some (([], tt) # sub ''second'' CHR ''S'' s @ sub ''minute'' CHR ''M'' mi
          @ sub ''hour'' CHR ''H'' h @ m1)" for m1
  proof (rule component_intro)
    show "lead (block mi CHR ''M'' @ block s CHR ''S'') \<noteq> Some CHR ''H''"
      by (rule lead_units(4) [OF assms(2,3)])
    show "backtrack (component ''minute'' CHR ''M'') (block mi CHR ''M'' @ block s CHR ''S'')
        (sub ''hour'' CHR ''H'' h @ m1) (\<lambda>s' m'. backtrack (component ''second'' CHR ''S'') s' m' k)
      = Some (([], tt) # sub ''second'' CHR ''S'' s @ sub ''minute'' CHR ''M'' mi
          @ sub ''hour'' CHR ''H'' h @ m1)"
      by (rule s2)
  qed (simp_all add: assms)
  have "backtrack (Group [] timeRe) tt m at_end
      = backtrack (component ''hour'' CHR ''H'')
        (block h CHR ''H'' @ block mi CHR ''M'' @ block s CHR ''S'') m
        (\<lambda>s' m'. backtrack (component ''minute'' CHR ''M'') s' m'
           (\<lambda>s' m'. backtrack (component ''second'' CHR ''S'') s' m' k))"
    unfolding k_def by (simp add: timeRe_def tt_def)
  then show ?thesis
    unfolding s1 tt_def by simp
qed

lemma backtrack_optional_time:
  assumes "optional_time tm"
  shows "backtrack (Opt (Group [] timeRe)) (time_text tm) m at_end = Some (time_sub tm @ m)"
proof (cases tm)
  case None
  then show ?thesis by (simp add: timeRe_def at_end_def)
next
  case (Some t)
  obtain h mi s where t: "t = (h, mi, s)" by (cases t)
  with assms Some have n: "optional_number h" "optional_number mi" "optional_number s"
    by simp_all
  have "backtrack (Opt (Group [] timeRe)) (time_text tm) m at_end
      = (case backtrack (Group [] timeRe) (time_text (Some (h, mi, s))) m at_end of
           Some r \<Rightarrow> Some r | None \<Rightarrow> at_end (time_text tm) m)"
    unfolding Some t by (simp only: backtrack.simps(4))
  then show ?thesis
    unfolding backtrack_time_text [OF n] Some t by simp
qed

lemma FindStringSubmatch_period_text:
  assumes "optional_number y" "optional_number mo" "optional_number d" "optional_time tm"
  shows "FindStringSubmatch regexpPeriod (period_text y mo d tm) = Some (period_sub y mo d tm)"
proof -
  define kt where "kt = (\<lambda>s' m'. backtrack (Opt (Group [] timeRe)) s' m' at_end)"
  have d: "backtrack (component ''day'' CHR ''D'') (block d CHR ''D'' @ time_text tm) m kt
      = Some (time_sub tm @ sub ''day'' CHR ''D'' d @ m)" for m
  proof (rule component_intro)
    show "lead (time_text tm) \<noteq> Some CHR ''D''" by simp
    show "kt (time_text tm) (sub ''day'' CHR ''D'' d @ m) = Some (time_sub tm @ sub ''day'' CHR ''D'' d @ m)"
      unfolding kt_def by (rule backtrack_optional_time [OF assms(4)])
  qed (simp_all add: assms)
  have mo: "backtrack (component ''month'' CHR ''M'')
        (block mo CHR ''M'' @ block d CHR ''D'' @ time_text tm) m
        (\<lambda>s' m'. backtrack (component ''day'' CHR ''D'') s' m' kt)
      = Some (time_sub tm @ sub ''day'' CHR ''D'' d @ sub ''month'' CHR ''M'' mo @ m)" for m
  proof (rule component_intro)
    show "lead (block d CHR ''D'' @ time_text tm) \<noteq> Some CHR ''M''"
      by (rule lead_units(2) [OF assms(2,3)])
    show "backtrack (component ''day'' CHR ''D'') (block d CHR ''D'' @ time_text tm)
        (sub ''month'' CHR ''M'' mo @ m) kt
      = Some (time_sub tm @ sub ''day'' CHR ''D'' d @ sub ''month'' CHR ''M'' mo @ m)"
      by (rule d)
  qed (simp_all add: assms)
  have y: "backtrack (component ''year'' CHR ''Y'')
        (block y CHR ''Y'' @ block mo CHR ''M'' @ block d CHR ''D'' @ time_text tm) m
        (\<lambda>s' m'. backtrack (component ''month'' CHR ''M'') s' m'
           (\<lambda>s' m'. backtrack (component ''day'' CHR ''D'') s' m' kt))
      = Some (time_sub tm @ sub ''day'' CHR ''D'' d @ sub ''month'' CHR ''M'' mo
          @ sub ''year'' CHR ''Y'' y @ m)" for m
  proof (rule component_intro)
    show "lead (block mo CHR ''M'' @ block d CHR ''D'' @ time_text tm) \<noteq> Some CHR ''Y''"
      by (rule lead_units(1) [OF assms(2,3)])
    show "backtrack (component ''month'' CHR ''M'') (block mo CHR ''M'' @ block d CHR ''D'' @ time_text tm)
        (sub ''year'' CHR ''Y'' y @ m) (\<lambda>s' m'. backtrack (component ''day'' CHR ''D'') s' m' kt)
      = Some (time_sub tm @ sub ''day'' CHR ''D'' d @ sub ''month'' CHR ''M'' mo
          @ sub ''year'' CHR ''Y'' y @ m)"
      by (rule mo)
  qed (simp_all add: assms)
  have "FindStringSubmatch regexpPeriod (period_text y mo d tm)
      = backtrack (component ''year'' CHR ''Y'')
        (block y CHR ''Y'' @ block mo CHR ''M'' @ block d CHR ''D'' @ time_text tm) []
        (\<lambda>s' m'. backtrack (component ''month'' CHR ''M'') s' m'
           (\<lambda>s' m'. backtrack (component ''day'' CHR ''D'') s' m' kt))"
    unfolding kt_def at_end_def [abs_def]
    by (simp add: FindStringSubmatch_def regexpPeriod_def period_text_def timeRe_def)
  then show ?thesis
    unfolding y by (simp add: period_sub_def)
qed

lemma backtrack_time_elim:
  assumes "backtrack (Opt (Group [] timeRe)) s m at_end = Some res"
  obtains tm where "optional_time tm" "s = time_text tm"
proof (cases "backtrack (Group [] timeRe) s m at_end")
  case None
  with assms have "at_end s m = Some res" by simp
  then have "s = []" by (simp add: at_end_def split: if_splits)
  then show ?thesis using that [of None] by simp
next
  case (Some r)
  define k where "k = (\<lambda>s' m'. at_end s' (([], take (length s - length s') s) # m'))"
  from Some obtain s1 where s: "s = CHR ''T'' # s1"
    and b: "backtrack (component ''hour'' CHR ''H'') s1 m
        (\<lambda>s' m'. backtrack (component ''minute'' CHR ''M'') s' m'
           (\<lambda>s' m'. backtrack (component ''second'' CHR ''S'') s' m' k)) = Some r"
    unfolding k_def by (cases s) (auto simp: timeRe_def split: if_splits)
  from b obtain h r1 where 1: "optional_number h" "s1 = block h CHR ''H'' @ r1"
    "backtrack (component ''minute'' CHR ''M'') r1 (sub ''hour'' CHR ''H'' h @ m)
           (\<lambda>s' m'. backtrack (component ''second'' CHR ''S'') s' m' k) = Some r"
    by (rule component_elim [rotated]) simp_all
  from 1(3) obtain mi r2 where 2: "optional_number mi" "r1 = block mi CHR ''M'' @ r2"
    "backtrack (component ''second'' CHR ''S'') r2
        (sub ''minute'' CHR ''M'' mi @ sub ''hour'' CHR ''H'' h @ m) k = Some r"
    by (rule component_elim [rotated]) simp_all
  from 2(3) obtain sc r3 where 3: "optional_number sc" "r2 = block sc CHR ''S'' @ r3"
    "k r3 (sub ''second'' CHR ''S'' sc @ sub ''minute'' CHR ''M'' mi @ sub ''hour'' CHR ''H'' h @ m)
       = Some r"
    by (rule component_elim [rotated]) simp_all
  from 3(3) have "r3 = []"
    by (simp add: k_def at_end_def split: if_splits)
  with s 1 2 3 have "s = time_text (Some (h, mi, sc))" "optional_time (Some (h, mi, sc))"
    by simp_all
  then show ?thesis using that by blast
qed

lemma FindStringSubmatch_period_grammar:
  assumes "FindStringSubmatch regexpPeriod str = Some m"
  shows "period_grammar str"
proof -
  define kt where "kt = (\<lambda>s' m'. backtrack (Opt (Group [] timeRe)) s' m' at_end)"
  from assms obtain s1 where s: "str = CHR ''P'' # s1"
    and b: "backtrack (component ''year'' CHR ''Y'') s1 []
        (\<lambda>s' m'. backtrack (component ''month'' CHR ''M'') s' m'
           (\<lambda>s' m'. backtrack (component ''day'' CHR ''D'') s' m' kt)) = Some m"
    unfolding kt_def at_end_def [abs_def]
    by (cases str)
      (auto simp: FindStringSubmatch_def regexpPeriod_def timeRe_def split: if_splits)
  from b obtain y r1 where 1: "optional_number y" "s1 = block y CHR ''Y'' @ r1"
    "backtrack (component ''month'' CHR ''M'') r1 (sub ''year'' CHR ''Y'' y @ [])
           (\<lambda>s' m'. backtrack (component ''day'' CHR ''D'') s' m' kt) = Some m"
    by (rule component_elim [rotated]) simp_all
  from 1(3) obtain mo r2 where 2: "optional_number mo" "r1 = block mo CHR ''M'' @ r2"
    "backtrack (component ''day'' CHR ''D'') r2
        (sub ''month'' CHR ''M'' mo @ sub ''year'' CHR ''Y'' y @ []) kt = Some m"
    by (rule component_elim [rotated]) simp_all
  from 2(3) obtain d r3 where 3: "optional_number d" "r2 = block d CHR ''D'' @ r3"
    "kt r3 (sub ''day'' CHR ''D'' d @ sub ''month'' CHR ''M'' mo @ sub ''year'' CHR ''Y'' y @ [])
       = Some m"
    by (rule component_elim [rotated]) simp_all
  from 3(3) obtain tm where 4: "optional_time tm" "r3 = time_text tm"
    unfolding kt_def by (rule backtrack_time_elim)
  from s 1 2 3 4 have "str = period_text y mo d tm"
    by (simp add: period_text_def)
  with 1 2 3 4 show ?thesis
    unfolding period_grammar_def by blast
qed

lemma FindStringSubmatch_regexpPeriod_iff:
  "FindStringSubmatch regexpPeriod str \<noteq> None \<longleftrightarrow> period_grammar str"
proof
  assume "FindStringSubmatch regexpPeriod str \<noteq> None"
  then show "period_grammar str"
    using FindStringSubmatch_period_grammar by blast
next
  assume "period_grammar str"
  then show "FindStringSubmatch regexpPeriod str \<noteq> None"
    unfolding period_grammar_def using FindStringSubmatch_period_text by fastforce
qed

lemma FindStringSubmatch_regexpWeek:
  "FindStringSubmatch regexpWeek str =
     (case str of [] \<Rightarrow> None
      | c # s \<Rightarrow>
          if c = CHR ''P'' \<and> lead s = Some CHR ''W'' \<and> tl (dropWhile is_digit s) = []
          then Some [([], takeWhile is_digit s @ ''W''), (''week'', takeWhile is_digit s)]
          else None)"
proof -
  have "FindStringSubmatch regexpWeek str =
     (case str of [] \<Rightarrow> None
      | c # s \<Rightarrow>
          if c = CHR ''P''
          then backtrack (Group [] (Cat (Group ''week'' Digits) (Lit CHR ''W''))) s []
                 (\<lambda>s' m. if s' = [] then Some m else None)
          else None)"
    by (simp only: FindStringSubmatch_def regexpWeek_def backtrack.simps(1,3))
  then show ?thesis
    unfolding backtrack_unit_group [OF units_not_digits(7)]
    by (simp split: list.splits)
qed

lemma FindStringSubmatch_week_text:
  assumes "number n"
  shows "FindStringSubmatch regexpWeek (week_text n) = Some [([], n @ ''W''), (''week'', n)]"
  using assms
  by (simp add: FindStringSubmatch_regexpWeek week_text_def lead_number takeWhile_number number_def)

lemma FindStringSubmatch_week_grammar:
  assumes "FindStringSubmatch regexpWeek str = Some m"
  shows "week_grammar str"
proof -
  from assms obtain s where s: "str = CHR ''P'' # s" "lead s = Some CHR ''W''"
    "tl (dropWhile is_digit s) = []"
    by (auto simp: FindStringSubmatch_regexpWeek split: list.splits if_splits)
  define n where "n = takeWhile is_digit s"
  from s have "n \<noteq> []" "dropWhile is_digit s = ''W''"
    by (auto simp: lead_def n_def split: if_splits list.splits)
  then have "s = n @ ''W''" "number n"
    unfolding n_def number_def
    by (metis takeWhile_dropWhile_id, simp add: list_all_iff) (meson set_takeWhileD)
  with s(1) show ?thesis
    unfolding week_grammar_def week_text_def by blast
qed

lemma FindStringSubmatch_regexpWeek_iff:
  "FindStringSubmatch regexpWeek str \<noteq> None \<longleftrightarrow> week_grammar str"
proof
  assume "FindStringSubmatch regexpWeek str \<noteq> None"
  then show "week_grammar str"
    using FindStringSubmatch_week_grammar by blast
next
  assume "week_grammar str"
  then show "FindStringSubmatch regexpWeek str \<noteq> None"
    unfolding week_grammar_def using FindStringSubmatch_week_text by fastforce
qed

lemma FindStringSubmatch_regexpWeek_period_text:
  assumes "optional_number y" "optional_number mo" "optional_number d"
  shows "FindStringSubmatch regexpWeek (period_text y mo d tm) = None"
  using assms
  by (simp add: FindStringSubmatch_regexpWeek period_text_def lead_block split: option.splits)

section \<open>FromString\<close>

text \<open>
  \<^verbatim>\<open>strconv.Atoi\<close> on a number of the grammar, the errors that the loop can return,
  and the outcome of \<^verbatim>\<open>FromString\<close> on each kind of text.
\<close>

lemma number_not_sign:
  assumes "number n"
  shows "n \<noteq> []" "hd n \<noteq> CHR ''-''" "hd n \<noteq> CHR ''+''"
  using assms by (cases n; auto simp: number_def is_digit_def)+

lemma Atoi_number:
  assumes "number n"
  shows "(Atoi n :: error + 'a::len word) =
     (if int (nat_of_digits n) \<le> 2 ^ (LENGTH('a) - 1) - 1
      then Inr (word_of_int (int (nat_of_digits n))) else Inl ErrRange)"
proof -
  define v where "v = int (nat_of_digits n)"
  define top :: int where "top = 2 ^ (LENGTH('a) - 1)"
  have "0 \<le> v" "0 < top" by (simp_all add: v_def top_def)
  then have c: "(v < - top \<or> top - 1 < v) = (\<not> v \<le> top - 1)"
    by linarith
  have b: "(if n \<noteq> [] \<and> (hd n = CHR ''-'' \<or> hd n = CHR ''+'') then tl n else n) = n"
    "(n \<noteq> [] \<and> hd n = CHR ''-'') = False"
    using number_not_sign [OF assms] by simp_all
  have "(Atoi n :: error + 'a word) =
      (if v < - top \<or> top - 1 < v then Inl ErrRange else Inr (word_of_int v))"
    unfolding Atoi_def Let_def b v_def top_def using assms by (simp only: if_False simp_thms)
  then show ?thesis
    unfolding c unfolding v_def top_def by (simp only: if_not_P if_P split: if_splits) auto
qed

lemma Atoi_error: "(Atoi s :: error + 'a::len word) = Inl e \<Longrightarrow> e = ErrSyntax \<or> e = ErrRange"
  unfolding Atoi_def Let_def by (simp split: if_splits)

lemma fill_error:
  "fill m names (p :: 'a::len word Period) = Inl e \<Longrightarrow> e = ErrSyntax \<or> e = ErrRange"
proof (induction names arbitrary: p)
  case Nil
  then show ?case by simp
next
  case (Cons name names)
  show ?case
  proof (cases "name = [] \<or> (case map_of m name of None \<Rightarrow> [] | Some text \<Rightarrow> text) = []")
    case True
    with Cons.prems have "fill m names p = Inl e" by (simp add: Let_def)
    then show ?thesis by (rule Cons.IH)
  next
    case False
    show ?thesis
    proof (cases "Atoi (case map_of m name of None \<Rightarrow> [] | Some text \<Rightarrow> text) :: error + 'a word")
      case (Inl err)
      with False Cons.prems have "e = err" by (simp add: Let_def)
      with Inl show ?thesis using Atoi_error by blast
    next
      case (Inr v)
      with False Cons.prems have "fill m names (assign name v p) = Inl e" by (simp add: Let_def)
      then show ?thesis by (rule Cons.IH)
    qed
  qed
qed

lemma FromString_BadFormat:
  "(FromString str :: error + 'a::len word Period) = Inl errPeriodBadFormat
     \<longleftrightarrow> \<not> week_grammar str \<and> \<not> period_grammar str"
proof -
  have w: "FindStringSubmatch regexpWeek str = None \<longleftrightarrow> \<not> week_grammar str"
    and p: "FindStringSubmatch regexpPeriod str = None \<longleftrightarrow> \<not> period_grammar str"
    using FindStringSubmatch_regexpWeek_iff [of str] FindStringSubmatch_regexpPeriod_iff [of str]
    by auto
  show ?thesis
  proof (cases "FindStringSubmatch regexpWeek str")
    case (Some m)
    then have "(FromString str :: error + 'a word Period) \<noteq> Inl errPeriodBadFormat"
      using fill_error [of m "SubexpNames regexpWeek" "zero_Period :: 'a word Period" errPeriodBadFormat]
      by (auto simp: FromString_def)
    with Some w show ?thesis by simp
  next
    case None
    show ?thesis
    proof (cases "FindStringSubmatch regexpPeriod str")
      case (Some m)
      then have "(FromString str :: error + 'a word Period) \<noteq> Inl errPeriodBadFormat"
        using None
          fill_error [of m "SubexpNames regexpPeriod" "zero_Period :: 'a word Period" errPeriodBadFormat]
        by (auto simp: FromString_def)
      with Some p show ?thesis by simp
    next
      case n2: None
      with None w p show ?thesis by (simp add: FromString_def)
    qed
  qed
qed

lemma map_of_sub:
  "key \<noteq> [] \<Longrightarrow> map_of (sub name u v @ rest) key =
     (if key = name then (case v of None \<Rightarrow> map_of rest key | Some n \<Rightarrow> Some n)
      else map_of rest key)"
  by (cases v) auto

lemma map_of_time_sub:
  "map_of (time_sub tm @ rest) ''hour'' = (case fst (hms tm) of None \<Rightarrow> map_of rest ''hour'' | Some n \<Rightarrow> Some n)"
  "map_of (time_sub tm @ rest) ''minute'' = (case fst (snd (hms tm)) of None \<Rightarrow> map_of rest ''minute'' | Some n \<Rightarrow> Some n)"
  "map_of (time_sub tm @ rest) ''second'' = (case snd (snd (hms tm)) of None \<Rightarrow> map_of rest ''second'' | Some n \<Rightarrow> Some n)"
  "map_of (time_sub tm @ rest) ''year'' = map_of rest ''year''"
  "map_of (time_sub tm @ rest) ''month'' = map_of rest ''month''"
  "map_of (time_sub tm @ rest) ''day'' = map_of rest ''day''"
proof -
  obtain h mi s where "tm = None \<or> tm = Some (h, mi, s)"
    by (cases tm) auto
  then show "map_of (time_sub tm @ rest) ''hour'' = (case fst (hms tm) of None \<Rightarrow> map_of rest ''hour'' | Some n \<Rightarrow> Some n)"
  "map_of (time_sub tm @ rest) ''minute'' = (case fst (snd (hms tm)) of None \<Rightarrow> map_of rest ''minute'' | Some n \<Rightarrow> Some n)"
  "map_of (time_sub tm @ rest) ''second'' = (case snd (snd (hms tm)) of None \<Rightarrow> map_of rest ''second'' | Some n \<Rightarrow> Some n)"
  "map_of (time_sub tm @ rest) ''year'' = map_of rest ''year''"
  "map_of (time_sub tm @ rest) ''month'' = map_of rest ''month''"
  "map_of (time_sub tm @ rest) ''day'' = map_of rest ''day''"
    by (auto simp: map_of_sub simp del: map_of_append split: option.splits)
qed

lemma map_of_period_sub:
  "map_of (period_sub y mo d tm) ''year'' = y"
  "map_of (period_sub y mo d tm) ''month'' = mo"
  "map_of (period_sub y mo d tm) ''day'' = d"
  "map_of (period_sub y mo d tm) ''hour'' = fst (hms tm)"
  "map_of (period_sub y mo d tm) ''minute'' = fst (snd (hms tm))"
  "map_of (period_sub y mo d tm) ''second'' = snd (snd (hms tm))"
  using map_of_sub [of _ _ _ _ "[]"]
  by (simp_all add: period_sub_def map_of_time_sub map_of_sub del: map_of_append
      split: option.splits)

lemma fill_skip: "fill m ([] # names) p = fill m names p"
  by simp

lemma fill_step:
  assumes "name \<noteq> []" "map_of m name = v" "optional_number v"
  shows "fill m (name # names) (p :: 'a::len word Period)
     = (if fits LENGTH('a) v then fill m names (put name v p) else Inl ErrRange)"
proof (cases v)
  case None
  with assms show ?thesis by (simp add: fits_def put_def)
next
  case (Some n)
  with assms have n: "number n" "n \<noteq> []" by (simp_all add: number_def)
  have "fill m (name # names) p = (case Atoi n of Inl err \<Rightarrow> Inl err
      | Inr v \<Rightarrow> fill m names (assign name v p))"
    using assms(1,2) Some n(2) by (simp add: Let_def)
  then show ?thesis
    unfolding Atoi_number [OF n(1)] using Some by (simp add: fits_def put_def val_def)
qed

lemma SubexpNames_regexpPeriod:
  "SubexpNames regexpPeriod = [[], [], ''year'', [], ''month'', [], ''day'', [], [], ''hour'', [],
     ''minute'', [], ''second'']"
  by (simp add: SubexpNames_def regexpPeriod_def component_def)

lemma SubexpNames_regexpWeek: "SubexpNames regexpWeek = [[], [], ''week'']"
  by (simp add: SubexpNames_def regexpWeek_def)

lemma fill_period_sub:
  assumes "optional_number y" "optional_number mo" "optional_number d" "optional_time tm"
  shows "fill (period_sub y mo d tm) (SubexpNames regexpPeriod) (p :: 'a::len word Period) =
     (if fits LENGTH('a) y \<and> fits LENGTH('a) mo \<and> fits LENGTH('a) d \<and>
         fits LENGTH('a) (fst (hms tm)) \<and> fits LENGTH('a) (fst (snd (hms tm))) \<and>
         fits LENGTH('a) (snd (snd (hms tm)))
      then Inr (put ''second'' (snd (snd (hms tm))) (put ''minute'' (fst (snd (hms tm)))
             (put ''hour'' (fst (hms tm)) (put ''day'' d (put ''month'' mo (put ''year'' y p))))))
      else Inl ErrRange)"
proof -
  have t: "optional_number (fst (hms tm))" "optional_number (fst (snd (hms tm)))"
    "optional_number (snd (snd (hms tm)))"
    using assms(4) by (cases tm; auto)+
  note m = map_of_period_sub [of y mo d tm]
  have ne: "''year'' \<noteq> []" "''month'' \<noteq> []" "''day'' \<noteq> []" "''hour'' \<noteq> []"
    "''minute'' \<noteq> []" "''second'' \<noteq> []"
    by simp_all
  show ?thesis
    unfolding SubexpNames_regexpPeriod fill_skip
      fill_step [OF ne(1) m(1) assms(1)] fill_step [OF ne(2) m(2) assms(2)]
      fill_step [OF ne(3) m(3) assms(3)] fill_step [OF ne(4) m(4) t(1)]
      fill_step [OF ne(5) m(5) t(2)] fill_step [OF ne(6) m(6) t(3)] fill.simps(1)
    by (simp only: if_splits simp_thms split: if_splits) auto
qed

lemma FromString_period_text:
  assumes "optional_number y" "optional_number mo" "optional_number d" "optional_time tm"
  shows "(FromString (period_text y mo d tm) :: error + 'a::len word Period) =
     (if fits LENGTH('a) y \<and> fits LENGTH('a) mo \<and> fits LENGTH('a) d \<and>
         fits LENGTH('a) (fst (hms tm)) \<and> fits LENGTH('a) (fst (snd (hms tm))) \<and>
         fits LENGTH('a) (snd (snd (hms tm)))
      then Inr \<lparr>Years = val y, Months = val mo, Weeks = 0, Days = val d,
             Hours = val (fst (hms tm)), Minutes = val (fst (snd (hms tm))),
             Seconds = val (snd (snd (hms tm)))\<rparr>
      else Inl ErrRange)"
proof -
  have p: "put ''second'' s (put ''minute'' mi (put ''hour'' h (put ''day'' d (put ''month'' mo
        (put ''year'' y (zero_Period :: 'a word Period))))))
      = \<lparr>Years = val y, Months = val mo, Weeks = 0, Days = val d,
             Hours = val h, Minutes = val mi, Seconds = val s\<rparr>" for h mi s
    by (simp add: put_def val_def assign_def zero_Period_def split: option.splits)
  show ?thesis
    unfolding FromString_def FindStringSubmatch_regexpWeek_period_text [OF assms(1-3)]
      FindStringSubmatch_period_text [OF assms] option.case fill_period_sub [OF assms] p ..
qed

lemma FromString_week_text:
  assumes "number n"
  shows "(FromString (week_text n) :: error + 'a::len word Period) =
     (if fits LENGTH('a) (Some n)
      then Inr \<lparr>Years = 0, Months = 0, Weeks = val (Some n), Days = 0, Hours = 0, Minutes = 0,
             Seconds = 0\<rparr>
      else Inl ErrRange)"
proof -
  have ne: "''week'' \<noteq> []" by simp
  have m: "map_of [([], n @ ''W''), (''week'', n)] ''week'' = Some n" by simp
  have o: "optional_number (Some n)" using assms by simp
  have p: "put ''week'' (Some n) (zero_Period :: 'a word Period)
      = \<lparr>Years = 0, Months = 0, Weeks = val (Some n), Days = 0, Hours = 0, Minutes = 0,
             Seconds = 0\<rparr>"
    by (simp add: put_def assign_def zero_Period_def)
  show ?thesis
    unfolding FromString_def FindStringSubmatch_week_text [OF assms] option.case
      SubexpNames_regexpWeek fill_skip fill_step [OF ne m o] fill.simps(1) p ..
qed

lemmas parse_eval = FromString_def FindStringSubmatch_def regexpWeek_def regexpPeriod_def
  component_def is_digit_def SubexpNames_def Atoi_def number_def nat_of_digits_def digit_val_def
  zero_Period_def assign_def Let_def

text \<open>
  C5 (as stated). A matched numeric component that fails to parse does not give
  the BadFormat error: \<^verbatim>\<open>FromString\<close> returns the error of \<^verbatim>\<open>strconv.Atoi\<close> as it is.
  With a 64-bit \<^verbatim>\<open>int\<close>, \<^verbatim>\<open>FromString("P9223372036854775808Y")\<close> matches the period
  grammar and fails with the range error of \<^verbatim>\<open>strconv\<close>, while
  \<^verbatim>\<open>FromString("P9223372036854775807Y")\<close> succeeds.
\<close>

theorem FromString_outcomes_counterexample:
  "(FromString ''P9223372036854775808Y'' :: error + 64 word Period) = Inl ErrRange \<and>
   (FromString ''P9223372036854775808Y'' :: error + 64 word Period) \<noteq> Inl errPeriodBadFormat \<and>
   (FromString ''P9223372036854775807Y'' :: error + 64 word Period)
     = Inr \<lparr>Years = 9223372036854775807, Months = 0, Weeks = 0, Days = 0, Hours = 0,
         Minutes = 0, Seconds = 0\<rparr>"
  by (simp add: parse_eval)

text \<open>
  C5 (amended). \<^verbatim>\<open>FromString\<close> fails with the BadFormat error exactly when the text
  matches neither the grammar \<^verbatim>\<open>P[nY][nM][nD][T[nH][nM][nS]]\<close> nor the week-only
  grammar \<^verbatim>\<open>PnW\<close>. On a text of the first grammar it returns the Period of its
  numbers (zero for an absent block, Weeks zero) when every number fits an
  \<^verbatim>\<open>int\<close>, and otherwise fails with the range error of \<^verbatim>\<open>strconv.Atoi\<close>, passed on
  unchanged; on a text of the week grammar it returns the Period of that many
  weeks, or fails with the range error likewise. The result is the whole Period
  or an error, never a partial result.
\<close>

theorem FromString_outcomes:
  "((FromString str :: error + 'a::len word Period) = Inl errPeriodBadFormat
      \<longleftrightarrow> \<not> week_grammar str \<and> \<not> period_grammar str) \<and>
   (optional_number y \<and> optional_number mo \<and> optional_number d \<and> optional_time tm \<longrightarrow>
      (FromString (period_text y mo d tm) :: error + 'a word Period) =
        (if fits LENGTH('a) y \<and> fits LENGTH('a) mo \<and> fits LENGTH('a) d \<and>
            fits LENGTH('a) (fst (hms tm)) \<and> fits LENGTH('a) (fst (snd (hms tm))) \<and>
            fits LENGTH('a) (snd (snd (hms tm)))
         then Inr \<lparr>Years = val y, Months = val mo, Weeks = 0, Days = val d,
                Hours = val (fst (hms tm)), Minutes = val (fst (snd (hms tm))),
                Seconds = val (snd (snd (hms tm)))\<rparr>
         else Inl ErrRange)) \<and>
   (number n \<longrightarrow>
      (FromString (week_text n) :: error + 'a word Period) =
        (if fits LENGTH('a) (Some n)
         then Inr \<lparr>Years = 0, Months = 0, Weeks = val (Some n), Days = 0, Hours = 0,
                Minutes = 0, Seconds = 0\<rparr>
         else Inl ErrRange))"
  using FromString_BadFormat [of str] FromString_period_text [of y mo d tm]
    FromString_week_text [of n]
  by blast

text \<open>
  The witness holds the four examples of the specification and of
  \<^verbatim>\<open>TestFromString\<close>: \<^verbatim>\<open>PT1S\<close> and \<^verbatim>\<open>P7W\<close> are texts of the two grammars, \<^verbatim>\<open>DT1S\<close> and
  \<^verbatim>\<open>P1S\<close> are texts of neither.
\<close>

theorem FromString_outcomes_witness:
  "(FromString ''PT1S'' :: error + 64 word Period)
     = Inr \<lparr>Years = 0, Months = 0, Weeks = 0, Days = 0, Hours = 0, Minutes = 0, Seconds = 1\<rparr> \<and>
   (FromString ''P7W'' :: error + 64 word Period)
     = Inr \<lparr>Years = 0, Months = 0, Weeks = 7, Days = 0, Hours = 0, Minutes = 0, Seconds = 0\<rparr> \<and>
   (FromString ''DT1S'' :: error + 64 word Period) = Inl errPeriodBadFormat \<and>
   (FromString ''P1S'' :: error + 64 word Period) = Inl errPeriodBadFormat \<and>
   \<not> week_grammar ''DT1S'' \<and> \<not> period_grammar ''DT1S'' \<and>
   \<not> week_grammar ''P1S'' \<and> \<not> period_grammar ''P1S''"
proof -
  have a: "(FromString ''DT1S'' :: error + 64 word Period) = Inl errPeriodBadFormat"
    "(FromString ''P1S'' :: error + 64 word Period) = Inl errPeriodBadFormat"
    by (simp_all add: parse_eval)
  have b: "period_text None None None (Some (None, None, Some ''1'')) = ''PT1S''"
    "week_text ''7'' = ''P7W''"
    by (simp_all add: period_text_def week_text_def)
  show ?thesis
    using FromString_outcomes [where 'a = 64 and str = "''DT1S''" and y = None and mo = None
        and d = None and tm = "Some (None, None, Some ''1'')" and n = "''7''"]
      FromString_outcomes [where 'a = 64 and str = "''P1S''" and y = None and mo = None
        and d = None and tm = None and n = "''7''"]
    unfolding b a
    by (simp add: fits_def val_def number_def is_digit_def nat_of_digits_def digit_val_def)
qed

section \<open>The round trip through the text\<close>

text \<open>Printing a natural number and reading it back gives the number.\<close>

lemma digit_char_props:
  assumes "d < 10"
  shows "is_digit (digit_char d)" "digit_val (digit_char d) = d"
proof -
  from assms have "d \<in> {0, 1, 2, 3, 4, 5, 6, 7, 8, 9}" by auto
  then show "is_digit (digit_char d)" "digit_val (digit_char d) = d"
    by (auto simp: is_digit_def digit_char_def digit_val_def)
qed

lemma number_digits_of: "number (digits_of n)"
proof (induction n rule: digits_of.induct)
  case (1 n)
  show ?case
  proof (cases "n < 10")
    case True
    then show ?thesis
      by (subst digits_of.simps) (simp add: number_def digit_char_props)
  next
    case False
    with 1 have "number (digits_of (n div 10))" by simp
    moreover have "is_digit (digit_char (n mod 10))" by (simp add: digit_char_props)
    ultimately show ?thesis
      using False by (subst digits_of.simps) (simp add: number_def)
  qed
qed

lemma nat_of_digits_snoc: "nat_of_digits (ds @ [c]) = nat_of_digits ds * 10 + digit_val c"
  by (simp add: nat_of_digits_def)

lemma nat_of_digits_digits_of: "nat_of_digits (digits_of n) = n"
proof (induction n rule: digits_of.induct)
  case (1 n)
  show ?case
  proof (cases "n < 10")
    case True
    then show ?thesis
      by (subst digits_of.simps) (simp add: nat_of_digits_def digit_char_props)
  next
    case False
    with 1 have "nat_of_digits (digits_of (n div 10)) = n div 10" by simp
    then show ?thesis
      using False by (subst digits_of.simps) (simp add: nat_of_digits_snoc digit_char_props)
  qed
qed

lemma text_of_props:
  fixes x :: "'a::len word"
  assumes "0 \<le> sint x"
  shows "optional_number (text_of x)" "fits LENGTH('a) (text_of x)" "val (text_of x) = x"
    "(if x \<noteq> 0 then FormatInt (sint x) @ [u] else []) = block (text_of x) u"
proof -
  have "int (nat (sint x)) = sint x" using assms by simp
  moreover have "sint x \<le> 2 ^ (LENGTH('a) - 1) - 1" using sint_lt [of x] by simp
  ultimately show "fits LENGTH('a) (text_of x)"
    by (simp add: fits_def text_of_def nat_of_digits_digits_of del: of_nat_nat)
  show "optional_number (text_of x)"
    by (simp add: text_of_def number_digits_of)
  show "val (text_of x) = x"
    using assms by (simp add: val_def text_of_def nat_of_digits_digits_of)
  show "(if x \<noteq> 0 then FormatInt (sint x) @ [u] else []) = block (text_of x) u"
    using assms by (simp add: text_of_def FormatInt_def)
qed

lemma text_of_0 [simp]: "text_of 0 = None"
  by (simp add: text_of_def)

lemmas print_eval = String_def FormatInt_def digits_of.simps digit_char_def HasTimePart_def

text \<open>
  C8 (as stated). The text of a Period is read back as the Period itself, not as
  its normalization: \<^verbatim>\<open>Period{Seconds: 91}\<close> has no weeks, prints as \<^verbatim>\<open>PT91S\<close> and is
  read back as \<^verbatim>\<open>Period{Seconds: 91}\<close>, while its normalization is
  \<^verbatim>\<open>Period{Minutes: 1, Seconds: 31}\<close>. And the text of a Period with a negative
  field is not read back at all: \<^verbatim>\<open>Period{Years: -1}\<close> prints as \<^verbatim>\<open>P-1Y\<close>, which
  \<^verbatim>\<open>FromString\<close> refuses with the BadFormat error.
\<close>

theorem FromString_String_counterexample:
  "FromString (String \<lparr>Years = 0, Months = 0, Weeks = 0, Days = 0, Hours = 0, Minutes = 0,
       Seconds = 91 :: 64 word\<rparr>)
     = Inr \<lparr>Years = 0, Months = 0, Weeks = 0, Days = 0, Hours = 0, Minutes = 0,
       Seconds = 91 :: 64 word\<rparr> \<and>
   Normalize \<lparr>Years = 0, Months = 0, Weeks = 0, Days = 0, Hours = 0, Minutes = 0,
       Seconds = 91 :: 64 word\<rparr>
     = \<lparr>Years = 0, Months = 0, Weeks = 0, Days = 0, Hours = 0, Minutes = 1, Seconds = 31\<rparr> \<and>
   FromString (String \<lparr>Years = - 1, Months = 0, Weeks = 0, Days = 0, Hours = 0, Minutes = 0,
       Seconds = 0 :: 64 word\<rparr>) = (Inl errPeriodBadFormat :: error + 64 word Period)"
  by (simp add: parse_eval print_eval Normalize_def go_quo_def go_rem_def
      signed_divide_int_def signed_modulo_int_def)

text \<open>
  C8 (amended). For every Period whose fields are all non-negative and in which
  Weeks is zero or is the only field that is not zero (the Periods that the
  textual format can express), \<^verbatim>\<open>FromString(p.String())\<close> succeeds and equals \<open>p\<close>
  itself, field by field; it equals \<^verbatim>\<open>Normalize(p)\<close> exactly when \<open>p\<close> is already
  normalized.
\<close>

theorem FromString_String:
  fixes p :: "'a::len word Period"
  assumes nonneg: "0 \<le> sint (Years p)" "0 \<le> sint (Months p)" "0 \<le> sint (Weeks p)"
      "0 \<le> sint (Days p)" "0 \<le> sint (Hours p)" "0 \<le> sint (Minutes p)" "0 \<le> sint (Seconds p)"
    and weeks: "Weeks p = 0 \<or> (Years p = 0 \<and> Months p = 0 \<and> Days p = 0 \<and> Hours p = 0 \<and>
      Minutes p = 0 \<and> Seconds p = 0)"
  shows "FromString (String p) = Inr p \<and>
     (FromString (String p) = Inr (Normalize p) \<longleftrightarrow> Normalize p = p)"
proof -
  have "FromString (String p) = Inr p"
  proof (cases "Weeks p = 0")
    case True
    define tm where "tm = (if HasTimePart p
      then Some (text_of (Hours p), text_of (Minutes p), text_of (Seconds p)) else None)"
    have h: "fst (hms tm) = text_of (Hours p)" "fst (snd (hms tm)) = text_of (Minutes p)"
      "snd (snd (hms tm)) = text_of (Seconds p)"
      by (simp_all add: tm_def HasTimePart_def)
    have ot: "optional_time tm"
      by (simp add: tm_def text_of_props(1) nonneg)
    have "String p = ''P'' @ block (text_of (Years p)) CHR ''Y'' @ block (text_of (Months p)) CHR ''M''
        @ block (text_of (Days p)) CHR ''D'' @ (if HasTimePart p then ''T'' else [])
        @ block (text_of (Hours p)) CHR ''H'' @ block (text_of (Minutes p)) CHR ''M''
        @ block (text_of (Seconds p)) CHR ''S''"
      unfolding String_def True
      by (simp only: text_of_props(4) [OF nonneg(1)] text_of_props(4) [OF nonneg(2)]
          text_of_props(4) [OF nonneg(4)] text_of_props(4) [OF nonneg(5)]
          text_of_props(4) [OF nonneg(6)] text_of_props(4) [OF nonneg(7)]
          simp_thms if_False append_Nil)
    also have "\<dots> = period_text (text_of (Years p)) (text_of (Months p)) (text_of (Days p)) tm"
      by (simp add: period_text_def tm_def HasTimePart_def)
    finally have s: "String p
        = period_text (text_of (Years p)) (text_of (Months p)) (text_of (Days p)) tm" .
    have "FromString (String p) = Inr \<lparr>Years = Years p, Months = Months p, Weeks = 0,
        Days = Days p, Hours = Hours p, Minutes = Minutes p, Seconds = Seconds p\<rparr>"
      unfolding s
      by (subst FromString_period_text)
        (simp_all only: text_of_props nonneg ot h simp_thms if_True)
    with True show ?thesis by simp
  next
    case False
    with weeks have z: "Years p = 0" "Months p = 0" "Days p = 0" "Hours p = 0" "Minutes p = 0"
      "Seconds p = 0"
      by simp_all
    define n where "n = digits_of (nat (sint (Weeks p)))"
    have t: "text_of (Weeks p) = Some n" using False by (simp add: text_of_def n_def)
    have n: "number n" by (simp add: n_def number_digits_of)
    have "String p = week_text n"
      using False nonneg(3) by (simp add: String_def z HasTimePart_def week_text_def n_def FormatInt_def)
    then have "FromString (String p) = Inr \<lparr>Years = 0, Months = 0, Weeks = Weeks p,
        Days = 0, Hours = 0, Minutes = 0, Seconds = 0\<rparr>"
      using text_of_props(2,3) [OF nonneg(3)]
      by (simp add: FromString_week_text [OF n] t)
    with z show ?thesis by simp
  qed
  then show ?thesis by auto
qed

text \<open>
  The witness is a Period that is not normalized (15 months, 120 minutes), with
  the text \<^verbatim>\<open>P6Y15M4DT120M1S\<close>, and the Period of seven weeks.
\<close>

theorem FromString_String_witness:
  "FromString (String \<lparr>Years = 6, Months = 15, Weeks = 0, Days = 4, Hours = 0, Minutes = 120,
       Seconds = 1 :: 64 word\<rparr>)
     = Inr \<lparr>Years = 6, Months = 15, Weeks = 0, Days = 4, Hours = 0, Minutes = 120,
       Seconds = 1 :: 64 word\<rparr> \<and>
   String \<lparr>Years = 6, Months = 15, Weeks = 0, Days = 4, Hours = 0, Minutes = 120,
       Seconds = 1 :: 64 word\<rparr> = ''P6Y15M4DT120M1S'' \<and>
   FromString (String \<lparr>Years = 0, Months = 0, Weeks = 7, Days = 0, Hours = 0, Minutes = 0,
       Seconds = 0 :: 64 word\<rparr>)
     = Inr \<lparr>Years = 0, Months = 0, Weeks = 7, Days = 0, Hours = 0, Minutes = 0,
       Seconds = 0 :: 64 word\<rparr>"
  using FromString_String [of "\<lparr>Years = 6, Months = 15, Weeks = 0, Days = 4, Hours = 0,
      Minutes = 120, Seconds = 1 :: 64 word\<rparr>"]
    FromString_String [of "\<lparr>Years = 0, Months = 0, Weeks = 7, Days = 0, Hours = 0,
      Minutes = 0, Seconds = 0 :: 64 word\<rparr>"]
  by (simp add: print_eval)

end
